theory Spec2Isabelle
  imports Complex_Main "HOL-Library.Word"
begin

unbundle bit_operations_syntax

section \<open>Strings, buffers and UTF-8\<close>

text \<open>
  The program is \<^verbatim>\<open>src/reliability_on_top_of_udp/main.js\<close>. A JavaScript string is
  modelled as the list of its Unicode code points (a surrogate pair counts as the one code
  point it denotes, a lone surrogate as itself; no code point is above 0x10FFFF), a
  \<^verbatim>\<open>Buffer\<close> as a list of bytes. \<^verbatim>\<open>Buffer.from(s, "utf8")\<close> and
  \<^verbatim>\<open>buffer.toString("utf8")\<close> are Node built-ins, modelled here by the UTF-8 encoder and by
  the UTF-8 decoder with replacement (one U+FFFD for every maximal ill-formed prefix, the
  offending byte decoded again).
\<close>

type_synonym byte = "8 word"
type_synonym int32 = "32 word"
type_synonym jsstring = "nat list"

definition str :: "string \<Rightarrow> jsstring" where
  "str s = map of_char s"

definition utf8_encode_cp :: "nat \<Rightarrow> byte list" where
  "utf8_encode_cp c =
     (if c < 0x80 then [of_nat c]
      else if c < 0x800 then [of_nat (0xC0 + c div 64), of_nat (0x80 + c mod 64)]
      else if (0xD800 \<le> c \<and> c < 0xE000) \<or> 0x110000 \<le> c then [0xEF, 0xBF, 0xBD]
      else if c < 0x10000 then
        [of_nat (0xE0 + c div 4096), of_nat (0x80 + (c div 64) mod 64), of_nat (0x80 + c mod 64)]
      else
        [of_nat (0xF0 + c div 262144), of_nat (0x80 + (c div 4096) mod 64),
         of_nat (0x80 + (c div 64) mod 64), of_nat (0x80 + c mod 64)])"

text \<open>\<^verbatim>\<open>Buffer.from(data, "utf8")\<close> on a string.\<close>

definition Buffer_from :: "jsstring \<Rightarrow> byte list" where
  "Buffer_from s = concat (map utf8_encode_cp s)"

definition is_cont :: "byte \<Rightarrow> bool" where
  "is_cont b = (0x80 \<le> b \<and> b \<le> 0xBF)"

definition low6 :: "byte \<Rightarrow> nat" where
  "low6 b = unat b mod 64"

text \<open>
  \<^verbatim>\<open>buffer.toString("utf8")\<close>. The second byte of a three-byte sequence is restricted after
  E0 (no overlong form) and ED (no surrogate), the second byte of a four-byte sequence after
  F0 and F4; C0, C1 and F5..FF start no sequence.
\<close>

fun toString_utf8 :: "byte list \<Rightarrow> jsstring" where
  "toString_utf8 [] = []"
| "toString_utf8 (b # bs) =
     (if b < 0x80 then unat b # toString_utf8 bs
      else if 0xC2 \<le> b \<and> b \<le> 0xDF then
        (case bs of
           [] \<Rightarrow> [0xFFFD]
         | c # cs \<Rightarrow>
             if is_cont c then ((unat b mod 32) * 64 + low6 c) # toString_utf8 cs
             else 0xFFFD # toString_utf8 bs)
      else if 0xE0 \<le> b \<and> b \<le> 0xEF then
        (case bs of
           [] \<Rightarrow> [0xFFFD]
         | c # cs \<Rightarrow>
             if (if b = 0xE0 then 0xA0 else 0x80) \<le> c \<and> c \<le> (if b = 0xED then 0x9F else 0xBF) then
               (case cs of
                  [] \<Rightarrow> [0xFFFD]
                | d # ds \<Rightarrow>
                    if is_cont d then
                      ((unat b mod 16) * 4096 + low6 c * 64 + low6 d) # toString_utf8 ds
                    else 0xFFFD # toString_utf8 cs)
             else 0xFFFD # toString_utf8 bs)
      else if 0xF0 \<le> b \<and> b \<le> 0xF4 then
        (case bs of
           [] \<Rightarrow> [0xFFFD]
         | c # cs \<Rightarrow>
             if (if b = 0xF0 then 0x90 else 0x80) \<le> c \<and> c \<le> (if b = 0xF4 then 0x8F else 0xBF) then
               (case cs of
                  [] \<Rightarrow> [0xFFFD]
                | d # ds \<Rightarrow>
                    if is_cont d then
                      (case ds of
                         [] \<Rightarrow> [0xFFFD]
                       | e # es \<Rightarrow>
                           if is_cont e then
                             ((unat b mod 8) * 262144 + low6 c * 4096 + low6 d * 64 + low6 e)
                               # toString_utf8 es
                           else 0xFFFD # toString_utf8 ds)
                    else 0xFFFD # toString_utf8 cs)
             else 0xFFFD # toString_utf8 bs)
      else 0xFFFD # toString_utf8 bs)"

section \<open>The checksum: \<^verbatim>\<open>generateCRC8\<close> and \<^verbatim>\<open>verifyCRC8\<close>\<close>

text \<open>
  Lines 67 to 77. JavaScript's \<^verbatim>\<open>^\<close>, \<^verbatim>\<open>&\<close> and \<^verbatim>\<open><<\<close> work on 32-bit integers, and the
  loop does not mask \<^verbatim>\<open>crc\<close> to eight bits: only the value returned is masked. The
  accumulator is therefore a 32-bit word, the shift wraps as \<^verbatim>\<open><<\<close> does.
\<close>

definition crc_shift :: "int32 \<Rightarrow> int32" where
  "crc_shift crc = (if crc AND 0x80 \<noteq> 0 then push_bit 1 crc XOR 0x07 else push_bit 1 crc)"

primrec crc_bits :: "nat \<Rightarrow> int32 \<Rightarrow> int32" where
  "crc_bits 0 crc = crc"
| "crc_bits (Suc n) crc = crc_bits n (crc_shift crc)"

definition crc_byte :: "int32 \<Rightarrow> byte \<Rightarrow> int32" where
  "crc_byte crc b = crc_bits 8 (crc XOR ucast b)"

definition generateCRC8_bytes :: "byte list \<Rightarrow> nat" where
  "generateCRC8_bytes bs = unat (foldl crc_byte 0 bs AND 0xff)"

definition generateCRC8 :: "jsstring \<Rightarrow> nat" where
  "generateCRC8 data = generateCRC8_bytes (Buffer_from data)"

text \<open>
  The step of the checksum as the specification words it, on eight bits (shift left, XOR
  with 0x07 when the top bit was set, mask to eight bits), and its inverse. The low byte of
  \<open>crc_shift\<close> is \<open>shift8\<close> of the low byte.
\<close>

definition shift8 :: "byte \<Rightarrow> byte" where
  "shift8 c = (if c AND 0x80 \<noteq> 0 then push_bit 1 c XOR 0x07 else push_bit 1 c)"

definition unshift8 :: "byte \<Rightarrow> byte" where
  "unshift8 d = (if d AND 1 \<noteq> 0 then drop_bit 1 (d XOR 0x07) OR 0x80 else drop_bit 1 d)"

text \<open>
  \<^verbatim>\<open>buffer[byteIndex] ^= 1 << bitIndex\<close> (line 160). A write past the end of a buffer is
  ignored by JavaScript; the byte keeps the low eight bits of the result.
\<close>

definition flipBit :: "byte list \<Rightarrow> nat \<Rightarrow> nat \<Rightarrow> byte list" where
  "flipBit buffer byteIndex bitIndex =
     (if byteIndex < length buffer
      then buffer[byteIndex := (buffer ! byteIndex) XOR push_bit bitIndex 1]
      else buffer)"

section \<open>Numbers\<close>

text \<open>
  JavaScript numbers are binary64 floating-point numbers, and a product is the exact
  product rounded to the nearest of them, a tie going to the even significand of 53 bits.
  The products formed here (a draw times a length or a delay) are far from overflow and
  from the subnormal range, which are left out.
\<close>

definition round_half_even :: "real \<Rightarrow> int" where
  "round_half_even y =
     (if y - of_int \<lfloor>y\<rfloor> < 1 / 2 then \<lfloor>y\<rfloor>
      else if 1 / 2 < y - of_int \<lfloor>y\<rfloor> then \<lfloor>y\<rfloor> + 1
      else if even \<lfloor>y\<rfloor> then \<lfloor>y\<rfloor>
      else \<lfloor>y\<rfloor> + 1)"

definition binary64 :: "real \<Rightarrow> real" where
  "binary64 x =
     (if x = 0 then 0
      else sgn x * of_int (round_half_even (\<bar>x\<bar> / 2 powr of_int (\<lfloor>log 2 \<bar>x\<bar>\<rfloor> - 52)))
             * 2 powr of_int (\<lfloor>log 2 \<bar>x\<bar>\<rfloor> - 52))"

section \<open>The envelope: \<^verbatim>\<open>JSON.stringify({ data, crc })\<close>\<close>

text \<open>
  \<^verbatim>\<open>JSON.stringify\<close> is a built-in. On the object \<^verbatim>\<open>{ data, crc }\<close> with a string and a
  number from 0 to 255 it yields \<^verbatim>\<open>{"data":<quoted data>,"crc":<decimal crc>}\<close>; the quoting
  (ECMAScript QuoteJSONString) escapes the double quote, the backslash, the control
  characters and lone surrogates. Punctuation is given by code point: 0x7B and 0x7D are the
  braces, 0x22 the double quote, 0x3A the colon, 0x2C the comma, 0x5C the backslash.
\<close>

definition hexdigit :: "nat \<Rightarrow> nat" where
  "hexdigit d = (if d < 10 then 0x30 + d else 0x61 + (d - 10))"

definition UnicodeEscape :: "nat \<Rightarrow> jsstring" where
  "UnicodeEscape c =
     [0x5C, 0x75, hexdigit (c div 4096), hexdigit (c div 256 mod 16),
      hexdigit (c div 16 mod 16), hexdigit (c mod 16)]"

definition quote_cp :: "nat \<Rightarrow> jsstring" where
  "quote_cp c =
     (if c = 0x08 then [0x5C, 0x62]
      else if c = 0x09 then [0x5C, 0x74]
      else if c = 0x0A then [0x5C, 0x6E]
      else if c = 0x0C then [0x5C, 0x66]
      else if c = 0x0D then [0x5C, 0x72]
      else if c = 0x22 then [0x5C, 0x22]
      else if c = 0x5C then [0x5C, 0x5C]
      else if c < 0x20 \<or> (0xD800 \<le> c \<and> c < 0xE000) then UnicodeEscape c
      else [c])"

definition QuoteJSONString :: "jsstring \<Rightarrow> jsstring" where
  "QuoteJSONString s = 0x22 # concat (map quote_cp s) @ [0x22]"

fun decimal :: "nat \<Rightarrow> jsstring" where
  "decimal n = (if n < 10 then [0x30 + n] else decimal (n div 10) @ [0x30 + n mod 10])"

declare decimal.simps [simp del]

definition JSON_stringify :: "jsstring \<Rightarrow> nat \<Rightarrow> jsstring" where
  "JSON_stringify data crc =
     0x7B # QuoteJSONString (str ''data'') @ 0x3A # QuoteJSONString data
       @ 0x2C # QuoteJSONString (str ''crc'') @ 0x3A # decimal crc @ [0x7D]"

definition ACK :: jsstring where
  "ACK = str ''ACK''"

definition NAK :: jsstring where
  "NAK = str ''NAK''"

section \<open>The receivers\<close>

text \<open>
  JavaScript values, as \<^verbatim>\<open>JSON.parse\<close> returns them and as the response handlers compare
  them. \<open>JNull\<close> is also the \<^verbatim>\<open>null\<close> that two of the receivers return. A number is
  the real it denotes; the infinities and NaN, which equal no checksum, are left out.
\<close>

datatype jsval =
    JUndefined
  | JNull
  | JBool bool
  | JNum real
  | JStr jsstring
  | JArr "jsval list"
  | JObj "(jsstring \<times> jsval) list"

datatype error = SyntaxError | TypeError

text \<open>
  \<^verbatim>\<open>const { data, crc } = v\<close>: a \<^verbatim>\<open>TypeError\<close> on \<^verbatim>\<open>null\<close> and \<^verbatim>\<open>undefined\<close>; a field that
  the value does not have is \<^verbatim>\<open>undefined\<close>. The fields of an object are an association list
  with one entry for each key.
\<close>

definition property :: "(jsstring \<times> jsval) list \<Rightarrow> jsstring \<Rightarrow> jsval" where
  "property fs k = (case map_of fs k of None \<Rightarrow> JUndefined | Some v \<Rightarrow> v)"

definition destructure :: "jsval \<Rightarrow> error + (jsval \<times> jsval)" where
  "destructure v =
     (case v of
        JUndefined \<Rightarrow> Inl TypeError
      | JNull \<Rightarrow> Inl TypeError
      | JObj fs \<Rightarrow> Inr (property fs (str ''data''), property fs (str ''crc''))
      | _ \<Rightarrow> Inr (JUndefined, JUndefined))"

text \<open>
  \<^verbatim>\<open>Buffer.from(data, "utf8")\<close> on any value: the UTF-8 bytes of a string, a \<^verbatim>\<open>TypeError\<close>
  on \<^verbatim>\<open>undefined\<close>, \<^verbatim>\<open>null\<close>, a boolean or a number. What Node does with an array or an
  object (its array-like conversion) is not code of this program: it is the parameter
  \<open>fromObject\<close>.
\<close>

definition Buffer_from_value :: "(jsval \<Rightarrow> error + byte list) \<Rightarrow> jsval \<Rightarrow> error + byte list" where
  "Buffer_from_value fromObject v =
     (case v of
        JStr s \<Rightarrow> Inr (Buffer_from s)
      | JArr xs \<Rightarrow> fromObject v
      | JObj fs \<Rightarrow> fromObject v
      | _ \<Rightarrow> Inl TypeError)"

definition generateCRC8_value :: "(jsval \<Rightarrow> error + byte list) \<Rightarrow> jsval \<Rightarrow> error + nat" where
  "generateCRC8_value fromObject data =
     (case Buffer_from_value fromObject data of
        Inl e \<Rightarrow> Inl e
      | Inr bs \<Rightarrow> Inr (generateCRC8_bytes bs))"

text \<open>Line 79: \<^verbatim>\<open>generateCRC8(data) === crc\<close>, strict equality with the number computed.\<close>

definition verifyCRC8 :: "(jsval \<Rightarrow> error + byte list) \<Rightarrow> jsval \<Rightarrow> jsval \<Rightarrow> error + bool" where
  "verifyCRC8 fromObject data crc =
     (case generateCRC8_value fromObject data of
        Inl e \<Rightarrow> Inl e
      | Inr c \<Rightarrow> Inr (crc = JNum (real c)))"

text \<open>
  The three \<^verbatim>\<open>receive\<close> functions (lines 20 to 29, 53 to 62 and 111 to 120).
  \<^verbatim>\<open>JSON.parse\<close> is the parameter \<open>parse\<close>: \<open>None\<close> where it throws its \<^verbatim>\<open>SyntaxError\<close>.
\<close>

definition receive_ACKNAK ::
  "(jsstring \<Rightarrow> jsval option) \<Rightarrow> (jsval \<Rightarrow> error + byte list) \<Rightarrow> jsstring \<Rightarrow> error + jsval" where
  "receive_ACKNAK parse fromObject packet =
     (case parse packet of
        None \<Rightarrow> Inl SyntaxError
      | Some v \<Rightarrow>
          (case destructure v of
             Inl e \<Rightarrow> Inl e
           | Inr (data, crc) \<Rightarrow>
               (case verifyCRC8 fromObject data crc of
                  Inl e \<Rightarrow> Inl e
                | Inr ok \<Rightarrow> Inr (if ok then JStr ACK else JStr NAK))))"

definition receive_NAK ::
  "(jsstring \<Rightarrow> jsval option) \<Rightarrow> (jsval \<Rightarrow> error + byte list) \<Rightarrow> jsstring \<Rightarrow> error + jsval" where
  "receive_NAK parse fromObject packet =
     (case parse packet of
        None \<Rightarrow> Inl SyntaxError
      | Some v \<Rightarrow>
          (case destructure v of
             Inl e \<Rightarrow> Inl e
           | Inr (data, crc) \<Rightarrow>
               (case verifyCRC8 fromObject data crc of
                  Inl e \<Rightarrow> Inl e
                | Inr ok \<Rightarrow> Inr (if ok then JNull else JStr NAK))))"

definition receive_ACK ::
  "(jsstring \<Rightarrow> jsval option) \<Rightarrow> (jsval \<Rightarrow> error + byte list) \<Rightarrow> jsstring \<Rightarrow> error + jsval" where
  "receive_ACK parse fromObject packet =
     (case parse packet of
        None \<Rightarrow> Inl SyntaxError
      | Some v \<Rightarrow>
          (case destructure v of
             Inl e \<Rightarrow> Inl e
           | Inr (data, crc) \<Rightarrow>
               (case verifyCRC8 fromObject data crc of
                  Inl e \<Rightarrow> Inl e
                | Inr ok \<Rightarrow> Inr (if ok then JStr ACK else JNull))))"

section \<open>The virtual socket and the senders\<close>

text \<open>
  Callbacks are closures; each is represented by a constructor carrying what it captured.
  The three \<^verbatim>\<open>handleResponse\<close> closures capture the packet (lines 6 to 14 and 39 to 47) or
  the \<^verbatim>\<open>ackReceived\<close> variable of their \<^verbatim>\<open>sendWithTimeout\<close> activation (lines 90 to 96),
  given by its index in the list of these variables; \<open>Server\<close> is the consumer of
  line 189, which only prints.
\<close>

datatype handler =
    HandleResponseACKNAK jsstring
  | HandleResponseNAK jsstring
  | HandleResponseACK nat
  | Server

text \<open>
  What \<^verbatim>\<open>setTimeout\<close> is given: the delayed delivery of line 144 and the timeout of
  lines 100 to 105.
\<close>

datatype task =
    Deliver handler jsstring
  | AckTimeout jsstring nat

datatype variant = ACKNAK | ACKonly | NAKonly

text \<open>
  The calls of the program. A frame is a call still to be made; the stack holds the calls
  of the running synchronous code, the next one first.
\<close>

datatype frame =
    LayerSend variant jsstring
  | SendWithTimeout jsstring
  | SocketSend jsstring handler
  | CallbackMaybeCorrupt handler jsstring
  | Invoke handler jsval
  | SetTimeout task real

text \<open>
  What an observer sees: a call of \<^verbatim>\<open>virtualSocket.send\<close> with a packet, a callback of the
  socket invoked with a value, and the producer's completion callback invoked.
\<close>

datatype obs =
    Transmitted jsstring
  | Delivered handler jsval
  | Completed

record config =
  dropProbability :: real
  delayProbability :: real
  errorProbability :: real
  maxDelayMs :: real

text \<open>
  The socket given to a layer is either the one of \<^verbatim>\<open>createVirtualSocket\<close> or an injected
  one, of which nothing is known: it keeps the callbacks it was given and its environment
  decides when each is invoked and with what.
\<close>

datatype socket = VirtualSocket config | Injected

text \<open>
  \<open>Math_random\<close> is the sequence of values \<^verbatim>\<open>Math.random()\<close> returns, each in the interval
  from 0 (included) to 1 (excluded); \<open>draws\<close> counts the calls made so far.
\<close>

record env =
  sock :: socket
  timeoutMs :: real
  Math_random :: "nat \<Rightarrow> real"

record world =
  stack :: "frame list"
  timers :: "(task \<times> real) list"
  ackReceived :: "bool list"
  draws :: nat
  registered :: "handler list"
  log :: "obs list"

text \<open>Lines 156 to 163.\<close>

definition introduceBitError :: "(nat \<Rightarrow> real) \<Rightarrow> nat \<Rightarrow> jsstring \<Rightarrow> jsstring" where
  "introduceBitError rnd n data =
     (let buffer = Buffer_from data;
          byteIndex = nat \<lfloor>binary64 (rnd n * real (length buffer))\<rfloor>;
          bitIndex = nat \<lfloor>binary64 (rnd (n + 1) * 8)\<rfloor>
      in toString_utf8 (flipBit buffer byteIndex bitIndex))"

text \<open>Lines 152 and 153; the second component is the number of draws after the call.\<close>

definition maybeCorruptData :: "config \<Rightarrow> (nat \<Rightarrow> real) \<Rightarrow> nat \<Rightarrow> jsstring \<Rightarrow> jsstring \<times> nat" where
  "maybeCorruptData cfg rnd n data =
     (if rnd n < errorProbability cfg then (introduceBitError rnd (n + 1) data, n + 3)
      else (data, n + 1))"

text \<open>Lines 136 to 149, the \<^verbatim>\<open>send\<close> of the virtual socket.\<close>

definition VirtualSocket_send :: "config \<Rightarrow> (nat \<Rightarrow> real) \<Rightarrow> jsstring \<Rightarrow> handler \<Rightarrow> world \<Rightarrow> world" where
  "VirtualSocket_send cfg rnd data callback w =
     (if rnd (draws w) < dropProbability cfg then w\<lparr>draws := draws w + 1\<rparr>
      else if rnd (draws w + 1) < delayProbability cfg then
        w\<lparr>draws := draws w + 3,
          stack := SetTimeout (Deliver callback data) (binary64 (rnd (draws w + 2) * maxDelayMs cfg))
                      # stack w\<rparr>
      else
        w\<lparr>draws := draws w + 2, stack := CallbackMaybeCorrupt callback data # stack w\<rparr>)"

text \<open>The bodies of the three \<^verbatim>\<open>handleResponse\<close> closures and of the server.\<close>

fun invoke :: "handler \<Rightarrow> jsval \<Rightarrow> world \<Rightarrow> world" where
  "invoke (HandleResponseACKNAK packet) response w =
     (if response = JStr ACK then w\<lparr>log := log w @ [Completed]\<rparr>
      else if response = JStr NAK then
        w\<lparr>stack := SocketSend packet (HandleResponseACKNAK packet) # stack w\<rparr>
      else w)"
| "invoke (HandleResponseNAK packet) response w =
     (if response = JStr NAK then
        w\<lparr>stack := SocketSend packet (HandleResponseNAK packet) # stack w\<rparr>
      else w\<lparr>log := log w @ [Completed]\<rparr>)"
| "invoke (HandleResponseACK cell) response w =
     (if response = JStr ACK then
        w\<lparr>ackReceived := (ackReceived w)[cell := True], log := log w @ [Completed]\<rparr>
      else w)"
| "invoke Server response w = w"

text \<open>
  One call. \<open>LayerSend\<close> is the \<^verbatim>\<open>send\<close> of a layer (lines 2 to 18, 35 to 51 and 82 to 109),
  \<open>SendWithTimeout\<close> lines 86 to 106: a fresh \<^verbatim>\<open>ackReceived\<close>, the call of the socket, then
  the timer.
\<close>

fun exec_frame :: "env \<Rightarrow> frame \<Rightarrow> world \<Rightarrow> world" where
  "exec_frame E (LayerSend v data) w =
     (let packet = JSON_stringify data (generateCRC8 data) in
      case v of
        ACKNAK \<Rightarrow> w\<lparr>stack := SocketSend packet (HandleResponseACKNAK packet) # stack w\<rparr>
      | NAKonly \<Rightarrow> w\<lparr>stack := SocketSend packet (HandleResponseNAK packet) # stack w\<rparr>
      | ACKonly \<Rightarrow> w\<lparr>stack := SendWithTimeout packet # stack w\<rparr>)"
| "exec_frame E (SendWithTimeout packet) w =
     (let cell = length (ackReceived w) in
      w\<lparr>ackReceived := ackReceived w @ [False],
        stack := SocketSend packet (HandleResponseACK cell)
                   # SetTimeout (AckTimeout packet cell) (timeoutMs E) # stack w\<rparr>)"
| "exec_frame E (SocketSend data callback) w =
     (let w' = w\<lparr>log := log w @ [Transmitted data]\<rparr> in
      case sock E of
        VirtualSocket cfg \<Rightarrow> VirtualSocket_send cfg (Math_random E) data callback w'
      | Injected \<Rightarrow> w'\<lparr>registered := registered w' @ [callback]\<rparr>)"
| "exec_frame E (CallbackMaybeCorrupt callback data) w =
     (case sock E of
        VirtualSocket cfg \<Rightarrow>
          (case maybeCorruptData cfg (Math_random E) (draws w) data of
             (data', n) \<Rightarrow> w\<lparr>draws := n, stack := Invoke callback (JStr data') # stack w\<rparr>)
      | Injected \<Rightarrow> w)"
| "exec_frame E (Invoke callback response) w =
     invoke callback response (w\<lparr>log := log w @ [Delivered callback response]\<rparr>)"
| "exec_frame E (SetTimeout t delay) w = w\<lparr>timers := timers w @ [(t, delay)]\<rparr>"

text \<open>A timer fires: the delayed delivery, or the timeout of the positive-only sender.\<close>

fun run_task :: "task \<Rightarrow> world \<Rightarrow> world" where
  "run_task (Deliver callback data) w = w\<lparr>stack := [CallbackMaybeCorrupt callback data]\<rparr>"
| "run_task (AckTimeout packet cell) w =
     (if \<not> (ackReceived w ! cell) then w\<lparr>stack := [SendWithTimeout packet]\<rparr> else w)"

text \<open>
  The event loop. \<open>Run\<close> makes the next call of the running code. When no code runs, a
  pending timer may fire (\<open>Fire i\<close>, the timer at position \<open>i\<close>) and, with an injected
  socket, the socket may invoke a callback it was given (\<open>Respond i v\<close>, the callback of the
  \<open>i\<close>-th call of its \<^verbatim>\<open>send\<close>, with the value \<open>v\<close>). The order in which timers fire is left
  to the schedule: every execution of the program is one of the schedules. An event that
  cannot happen in a state yields \<open>None\<close>.
\<close>

datatype event = Run | Fire nat | Respond nat jsval

fun step :: "env \<Rightarrow> event \<Rightarrow> world \<Rightarrow> world option" where
  "step E Run w =
     (case stack w of
        [] \<Rightarrow> None
      | f # fs \<Rightarrow> Some (exec_frame E f (w\<lparr>stack := fs\<rparr>)))"
| "step E (Fire i) w =
     (if stack w = [] \<and> i < length (timers w)
      then Some (run_task (fst (timers w ! i))
                   (w\<lparr>timers := take i (timers w) @ drop (Suc i) (timers w)\<rparr>))
      else None)"
| "step E (Respond i v) w =
     (if sock E = Injected \<and> stack w = [] \<and> i < length (registered w)
      then Some (w\<lparr>stack := [Invoke (registered w ! i) v]\<rparr>)
      else None)"

fun run :: "env \<Rightarrow> event list \<Rightarrow> world \<Rightarrow> world option" where
  "run E [] w = Some w"
| "run E (e # es) w = (case step E e w of None \<Rightarrow> None | Some w' \<Rightarrow> run E es w')"

text \<open>The state in which a producer calls \<^verbatim>\<open>send(data, callback)\<close> of a layer.\<close>

definition start :: "variant \<Rightarrow> jsstring \<Rightarrow> world" where
  "start v data =
     \<lparr>stack = [LayerSend v data], timers = [], ackReceived = [], draws = 0,
      registered = [], log = []\<rparr>"

definition completions :: "world \<Rightarrow> nat" where
  "completions w = length (filter (\<lambda>e. e = Completed) (log w))"

definition transmissions :: "world \<Rightarrow> jsstring list" where
  "transmissions w = concat (map (\<lambda>e. case e of Transmitted p \<Rightarrow> [p] | _ \<Rightarrow> []) (log w))"

definition quiescent :: "world \<Rightarrow> bool" where
  "quiescent w = (stack w = [] \<and> timers w = [])"

section \<open>What the socket delivers\<close>

text \<open>
  A value is the string \<open>data\<close>, possibly corrupted: the string itself or the result of
  \<^verbatim>\<open>introduceBitError\<close> on it for some byte and bit index.
\<close>

definition possibly_corrupted :: "jsstring \<Rightarrow> jsval \<Rightarrow> bool" where
  "possibly_corrupted data v =
     (v = JStr data \<or> (\<exists>i k. v = JStr (toString_utf8 (flipBit (Buffer_from data) i k))))"

definition deliveries :: "world \<Rightarrow> (handler \<times> jsval) list" where
  "deliveries w = concat (map (\<lambda>e. case e of Delivered h v \<Rightarrow> [(h, v)] | _ \<Rightarrow> []) (log w))"

text \<open>The state in which \<^verbatim>\<open>virtualSocket.send(data, callback)\<close> is called and nothing else is pending.\<close>

definition socket_call :: "jsstring \<Rightarrow> handler \<Rightarrow> world" where
  "socket_call data callback =
     \<lparr>stack = [SocketSend data callback], timers = [], ackReceived = [], draws = 0,
      registered = [], log = []\<rparr>"

text \<open>
  The states a call of \<^verbatim>\<open>virtualSocket.send(data, server)\<close> goes through: the call itself;
  the packet dropped; the timer about to be set, the timer pending, the delivery about to be
  made, the callback about to be invoked; the callback invoked.
\<close>

inductive channel_phase :: "config \<Rightarrow> (nat \<Rightarrow> real) \<Rightarrow> jsstring \<Rightarrow> world \<Rightarrow> bool"
  for cfg :: config and rnd :: "nat \<Rightarrow> real" and data :: jsstring where
  call:
    "stack w = [SocketSend data Server] \<Longrightarrow> timers w = [] \<Longrightarrow> log w = [] \<Longrightarrow> draws w = 0
     \<Longrightarrow> channel_phase cfg rnd data w"
| dropped:
    "rnd 0 < dropProbability cfg \<Longrightarrow> stack w = [] \<Longrightarrow> timers w = []
     \<Longrightarrow> log w = [Transmitted data] \<Longrightarrow> channel_phase cfg rnd data w"
| set_timer:
    "\<not> rnd 0 < dropProbability cfg \<Longrightarrow> stack w = [SetTimeout (Deliver Server data) delay]
     \<Longrightarrow> timers w = [] \<Longrightarrow> log w = [Transmitted data] \<Longrightarrow> channel_phase cfg rnd data w"
| pending:
    "\<not> rnd 0 < dropProbability cfg \<Longrightarrow> stack w = []
     \<Longrightarrow> timers w = [(Deliver Server data, delay)] \<Longrightarrow> log w = [Transmitted data]
     \<Longrightarrow> channel_phase cfg rnd data w"
| deliver:
    "\<not> rnd 0 < dropProbability cfg \<Longrightarrow> stack w = [CallbackMaybeCorrupt Server data]
     \<Longrightarrow> timers w = [] \<Longrightarrow> log w = [Transmitted data] \<Longrightarrow> channel_phase cfg rnd data w"
| callback:
    "\<not> rnd 0 < dropProbability cfg \<Longrightarrow> stack w = [Invoke Server v] \<Longrightarrow> timers w = []
     \<Longrightarrow> log w = [Transmitted data] \<Longrightarrow> possibly_corrupted data v
     \<Longrightarrow> channel_phase cfg rnd data w"
| delivered:
    "\<not> rnd 0 < dropProbability cfg \<Longrightarrow> stack w = [] \<Longrightarrow> timers w = []
     \<Longrightarrow> log w = [Transmitted data, Delivered Server v] \<Longrightarrow> possibly_corrupted data v
     \<Longrightarrow> channel_phase cfg rnd data w"

text \<open>
  The invariant of a send through the virtual socket: every call, timer and delivery is
  about the one packet \<open>p\<close> and the response handler of the sending layer, and only the
  negative-only layer has invoked the completion callback.
\<close>

fun sender_handler :: "variant \<Rightarrow> jsstring \<Rightarrow> handler \<Rightarrow> bool" where
  "sender_handler ACKNAK p h = (h = HandleResponseACKNAK p)"
| "sender_handler NAKonly p h = (h = HandleResponseNAK p)"
| "sender_handler ACKonly p h = (case h of HandleResponseACK cell \<Rightarrow> True | _ \<Rightarrow> False)"

fun packet_task :: "variant \<Rightarrow> jsstring \<Rightarrow> task \<Rightarrow> bool" where
  "packet_task v p (Deliver h d) = (sender_handler v p h \<and> d = p)"
| "packet_task v p (AckTimeout q cell) = (v = ACKonly \<and> q = p)"

fun packet_frame :: "variant \<Rightarrow> jsstring \<Rightarrow> jsstring \<Rightarrow> frame \<Rightarrow> bool" where
  "packet_frame v data p (LayerSend v' d) = (v' = v \<and> d = data)"
| "packet_frame v data p (SendWithTimeout q) = (v = ACKonly \<and> q = p)"
| "packet_frame v data p (SocketSend q h) = (q = p \<and> sender_handler v p h)"
| "packet_frame v data p (CallbackMaybeCorrupt h d) = (sender_handler v p h \<and> d = p)"
| "packet_frame v data p (Invoke h response) =
     (sender_handler v p h \<and> possibly_corrupted p response)"
| "packet_frame v data p (SetTimeout t delay) = packet_task v p t"

fun packet_obs :: "variant \<Rightarrow> jsstring \<Rightarrow> obs \<Rightarrow> bool" where
  "packet_obs v p (Delivered h response) =
     (sender_handler v p h \<and> possibly_corrupted p response)"
| "packet_obs v p (Transmitted q) = (q = p)"
| "packet_obs v p Completed = (v = NAKonly)"

definition envelope_inv :: "variant \<Rightarrow> jsstring \<Rightarrow> world \<Rightarrow> bool" where
  "envelope_inv v data w =
     (list_all (packet_frame v data (JSON_stringify data (generateCRC8 data))) (stack w)
      \<and> list_all (\<lambda>t. packet_task v (JSON_stringify data (generateCRC8 data)) (fst t)) (timers w)
      \<and> list_all (packet_obs v (JSON_stringify data (generateCRC8 data))) (log w))"

section \<open>Sample inputs\<close>

text \<open>A random source that returns the same value at every call.\<close>

definition constant_draws :: "real \<Rightarrow> nat \<Rightarrow> real" where
  "constant_draws r n = r"

text \<open>The packet the senders build for the payload \<^verbatim>\<open>Hi\<close>, whose checksum is 235.\<close>

definition packet_Hi :: jsstring where
  "packet_Hi = JSON_stringify (str ''Hi'') 235"

text \<open>The text \<^verbatim>\<open>{"data":"Hi"}\<close>, a record without the \<^verbatim>\<open>crc\<close> field.\<close>

definition text_missing_crc :: jsstring where
  "text_missing_crc = 0x7B # QuoteJSONString (str ''data'') @ 0x3A # QuoteJSONString (str ''Hi'') @ [0x7D]"

text \<open>The text \<^verbatim>\<open>{"crc":235}\<close>, a record without the \<^verbatim>\<open>data\<close> field.\<close>

definition text_missing_data :: jsstring where
  "text_missing_data = 0x7B # QuoteJSONString (str ''crc'') @ 0x3A # decimal 235 @ [0x7D]"

text \<open>
  The values of \<^verbatim>\<open>JSON.parse\<close> at the sample texts: the packet of \<^verbatim>\<open>Hi\<close>, the same
  with the checksum 234, the two incomplete records and the text \<^verbatim>\<open>null\<close>. The text
  \<^verbatim>\<open>Hi\<close> is not in the table: \<^verbatim>\<open>JSON.parse\<close> rejects it. The table says nothing on any
  other text.
\<close>

definition JSON_parse_sample :: "jsstring \<Rightarrow> jsval option" where
  "JSON_parse_sample =
     map_of
       [(packet_Hi, JObj [(str ''data'', JStr (str ''Hi'')), (str ''crc'', JNum 235)]),
        (JSON_stringify (str ''Hi'') 234,
           JObj [(str ''data'', JStr (str ''Hi'')), (str ''crc'', JNum 234)]),
        (text_missing_crc, JObj [(str ''data'', JStr (str ''Hi''))]),
        (text_missing_data, JObj [(str ''crc'', JNum 235)]),
        (str ''null'', JNull)]"

text \<open>For the samples, none of which has an array or an object as \<^verbatim>\<open>data\<close>.\<close>

definition no_object :: "jsval \<Rightarrow> error + byte list" where
  "no_object v = Inl TypeError"

text \<open>A channel without impairment, one that drops every packet, and an injected socket.\<close>

definition clean_channel :: env where
  "clean_channel =
     \<lparr>sock = VirtualSocket \<lparr>dropProbability = 0, delayProbability = 0, errorProbability = 0,
                              maxDelayMs = 1000\<rparr>,
      timeoutMs = 1000, Math_random = constant_draws (1 / 2)\<rparr>"

definition dropping_channel :: env where
  "dropping_channel =
     \<lparr>sock = VirtualSocket \<lparr>dropProbability = 1, delayProbability = 0, errorProbability = 0,
                              maxDelayMs = 1000\<rparr>,
      timeoutMs = 1000, Math_random = constant_draws (1 / 2)\<rparr>"

definition injected :: "real \<Rightarrow> (nat \<Rightarrow> real) \<Rightarrow> env" where
  "injected t rnd = \<lparr>sock = Injected, timeoutMs = t, Math_random = rnd\<rparr>"

section \<open>Schedules of failing attempts\<close>

text \<open>
  With an injected socket: every attempt is answered NAK (the receiver found it corrupted),
  \<open>n\<close> times; and no attempt is answered at all (each is lost), and the timeout of the
  positive-only sender fires \<open>n\<close> times. The first events are the calls of \<^verbatim>\<open>send\<close> itself.
\<close>

definition nak_round :: "nat \<Rightarrow> event list" where
  "nak_round i = [Respond i (JStr NAK), Run, Run]"

definition nak_schedule :: "nat \<Rightarrow> event list" where
  "nak_schedule n = [Run, Run] @ concat (map nak_round [0..<n])"

definition timeout_round :: "event list" where
  "timeout_round = [Fire 0, Run, Run, Run]"

definition timeout_schedule :: "nat \<Rightarrow> event list" where
  "timeout_schedule n = [Run, Run, Run, Run] @ concat (replicate n timeout_round)"

text \<open>
  With an injected socket that answers every attempt of the positive-only sender with the
  \<^verbatim>\<open>null\<close> its receiver returns for a corrupted packet; the timeout fires after each.
\<close>

definition none_round :: "nat \<Rightarrow> event list" where
  "none_round i = [Respond i JNull, Run, Fire 0, Run, Run, Run]"

definition none_schedule :: "nat \<Rightarrow> event list" where
  "none_schedule n = [Run, Run, Run, Run] @ concat (map none_round [0..<n])"

text \<open>The states these schedules lead to, after \<open>k\<close> rounds.\<close>

definition none_world :: "jsstring \<Rightarrow> real \<Rightarrow> nat \<Rightarrow> world" where
  "none_world p t k =
     \<lparr>stack = [], timers = [(AckTimeout p k, t)], ackReceived = replicate (Suc k) False,
      draws = 0, registered = map HandleResponseACK [0..<Suc k],
      log = Transmitted p
              # concat (map (\<lambda>i. [Delivered (HandleResponseACK i) JNull, Transmitted p]) [0..<k])\<rparr>"

text \<open>
  The positive-only sender on the virtual socket when every packet is dropped, after \<open>k\<close>
  timeouts: one draw was made for each transmission.
\<close>

definition dropped_world :: "jsstring \<Rightarrow> real \<Rightarrow> nat \<Rightarrow> world" where
  "dropped_world p t k =
     \<lparr>stack = [], timers = [(AckTimeout p k, t)], ackReceived = replicate (Suc k) False,
      draws = Suc k, registered = [], log = replicate (Suc k) (Transmitted p)\<rparr>"

text \<open>
  The states of a sender without a timer on the virtual socket when every packet is
  dropped: \<^verbatim>\<open>send\<close> called, the socket about to be called, the one transmission made.
\<close>

inductive drop_phase :: "variant \<Rightarrow> jsstring \<Rightarrow> world \<Rightarrow> bool"
  for v :: variant and data :: jsstring where
  sending:
    "stack w = [LayerSend v data] \<Longrightarrow> timers w = [] \<Longrightarrow> log w = [] \<Longrightarrow> drop_phase v data w"
| calling:
    "stack w = [SocketSend (JSON_stringify data (generateCRC8 data)) h] \<Longrightarrow> timers w = []
     \<Longrightarrow> log w = [] \<Longrightarrow> drop_phase v data w"
| waiting:
    "stack w = [] \<Longrightarrow> timers w = []
     \<Longrightarrow> log w = [Transmitted (JSON_stringify data (generateCRC8 data))]
     \<Longrightarrow> drop_phase v data w"


definition nak_world :: "handler \<Rightarrow> jsstring \<Rightarrow> nat \<Rightarrow> world" where
  "nak_world h p k =
     \<lparr>stack = [], timers = [], ackReceived = [], draws = 0, registered = replicate (Suc k) h,
      log = Transmitted p # concat (replicate k [Delivered h (JStr NAK), Transmitted p])\<rparr>"

definition timeout_world :: "jsstring \<Rightarrow> real \<Rightarrow> nat \<Rightarrow> world" where
  "timeout_world p t k =
     \<lparr>stack = [], timers = [(AckTimeout p k, t)], ackReceived = replicate (Suc k) False,
      draws = 0, registered = map HandleResponseACK [0..<Suc k],
      log = replicate (Suc k) (Transmitted p)\<rparr>"

section \<open>Properties of the checksum\<close>

lemma all_bytes: "(c::byte) \<in> set (map of_nat [0..<256])"
proof -
  have "unat c < 256" using unsigned_less[of c, where 'a=nat] by simp
  then have "of_nat (unat c) \<in> (of_nat ` {0..<256} :: byte set)" by (intro imageI) simp
  then show ?thesis by simp
qed

lemma unshift8_table: "list_all (\<lambda>c. unshift8 (shift8 c) = c) (map of_nat [0..<256])"
  by code_simp

lemma unshift8_shift8: "unshift8 (shift8 c) = c"
  using unshift8_table all_bytes[of c] unfolding list_all_iff by blast

lemma top_bit32: "(c :: int32) AND 0x80 \<noteq> 0 \<longleftrightarrow> bit c 7"
  using and_exp_eq_0_iff_not_bit[of c 7] by simp

lemma top_bit8: "(c :: byte) AND 0x80 \<noteq> 0 \<longleftrightarrow> bit c 7"
  using and_exp_eq_0_iff_not_bit[of c 7] by simp

lemma ucast_push_bit8: "(ucast (push_bit n (c::int32)) :: byte) = push_bit n (ucast c)"
  by (rule bit_word_eqI) (auto simp add: bit_simps)

lemma ucast_xor8: "(ucast ((c::int32) XOR d) :: byte) = ucast c XOR ucast d"
  by (rule bit_word_eqI) (auto simp add: bit_simps)

lemma ucast_ucast8: "(ucast (ucast (b::byte) :: int32) :: byte) = b"
  by (rule bit_word_eqI) (auto simp add: bit_simps)

lemma bit7_ucast: "bit (ucast (c::int32) :: byte) 7 = bit c 7"
  by (simp add: bit_simps)

lemma ucast_7: "(ucast (7::int32) :: byte) = 7"
  by simp

text \<open>The unmasked 32-bit loop of the code refines the eight-bit step of the specification.\<close>

lemma ucast_crc_shift: "ucast (crc_shift c) = shift8 (ucast c)"
  unfolding crc_shift_def shift8_def top_bit32 top_bit8 bit7_ucast
  by (simp only: ucast_push_bit8 ucast_xor8 ucast_7 if_distrib[of ucast] cong: if_cong)

lemma ucast_crc_bits: "ucast (crc_bits n c) = (shift8 ^^ n) (ucast c)"
  by (induction n arbitrary: c) (simp_all add: ucast_crc_shift funpow_swap1)

lemma ucast_crc_byte: "ucast (crc_byte c b) = (shift8 ^^ 8) (ucast c XOR b)"
  by (simp add: crc_byte_def ucast_crc_bits ucast_xor8 ucast_ucast8)

lemma inj_shift8: "shift8 a = shift8 b \<Longrightarrow> a = b"
  by (metis unshift8_shift8)

lemma inj_shift8_pow: "(shift8 ^^ n) a = (shift8 ^^ n) b \<Longrightarrow> a = b"
  by (induction n) (auto dest: inj_shift8)

lemma xor_right_cancel8: "(x::byte) XOR b = y XOR b \<Longrightarrow> x = y"
  by (metis bit.xor_left_self xor.commute)

lemma xor_left_cancel8: "(b::byte) XOR x = b XOR y \<Longrightarrow> x = y"
  by (metis bit.xor_left_self)

lemma foldl_crc_distinct:
  "ucast s \<noteq> (ucast s' :: byte) \<Longrightarrow>
   ucast (foldl crc_byte s bs) \<noteq> (ucast (foldl crc_byte s' bs) :: byte)"
proof (induction bs arbitrary: s s')
  case Nil
  then show ?case by simp
next
  case (Cons b bs)
  have "ucast (crc_byte s b) \<noteq> (ucast (crc_byte s' b) :: byte)"
    using Cons.prems by (auto simp add: ucast_crc_byte dest!: inj_shift8_pow xor_right_cancel8)
  then show ?case using Cons.IH by simp
qed

lemma flip_changes_byte: "k < 8 \<Longrightarrow> (b::byte) XOR push_bit k 1 \<noteq> b"
proof
  assume k: "k < 8" and "b XOR push_bit k 1 = b"
  then have "bit (b XOR push_bit k 1) k = bit b k" by simp
  with k show False by (simp add: bit_simps)
qed

lemma low_byte: "unat ((w::int32) AND 0xff) = unat (ucast w :: byte)"
proof -
  have "(0xff :: int32) = mask 8" by (simp add: mask_eq_exp_minus_1)
  then have "w AND 0xff = take_bit 8 w" by (simp add: take_bit_eq_mask)
  then show ?thesis by (simp add: unsigned_ucast_eq unsigned_take_bit_eq)
qed

lemma foldl_crc_flip:
  assumes "i < length bs" "k < 8"
  shows "ucast (foldl crc_byte s (bs[i := bs ! i XOR push_bit k 1]))
           \<noteq> (ucast (foldl crc_byte s bs) :: byte)"
  using assms
proof (induction bs arbitrary: s i)
  case Nil
  then show ?case by simp
next
  case (Cons b bs)
  show ?case
  proof (cases i)
    case 0
    have "ucast s XOR (b XOR push_bit k 1) \<noteq> (ucast s :: byte) XOR b"
      using flip_changes_byte[OF Cons.prems(2), of b] xor_left_cancel8 by blast
    then have "ucast (crc_byte s (b XOR push_bit k 1)) \<noteq> (ucast (crc_byte s b) :: byte)"
      unfolding ucast_crc_byte using inj_shift8_pow by blast
    then show ?thesis using 0 foldl_crc_distinct by simp
  next
    case (Suc j)
    then show ?thesis using Cons by simp
  qed
qed

text \<open>
  C3. The checksum of the nine ASCII digits \<^verbatim>\<open>"123456789"\<close> is 0xF4, the check value of
  CRC-8 with polynomial 0x07, initial value 0, no reflection and no final XOR.
\<close>

theorem C3_known_vector: "generateCRC8 (str ''123456789'') = 0xF4"
  by code_simp

text \<open>
  C4. Single-bit sensitivity: for every payload, taken as the bytes that the loop of
  \<^verbatim>\<open>generateCRC8\<close> reads, and every bit position of it (byte \<open>i\<close>, bit \<open>k\<close>), the payload
  with that bit flipped has a different checksum.
\<close>

theorem C4_single_bit_sensitivity:
  "i < length bs \<Longrightarrow> k < 8 \<Longrightarrow> generateCRC8_bytes (flipBit bs i k) \<noteq> generateCRC8_bytes bs"
  using foldl_crc_flip[of i bs k 0]
  by (simp add: generateCRC8_bytes_def flipBit_def low_byte word_unat_eq_iff)

theorem C4_single_bit_sensitivity_witness:
  "(0::nat) < length (Buffer_from (str ''Hi'')) \<and> (7::nat) < 8 \<and>
   generateCRC8_bytes (flipBit (Buffer_from (str ''Hi'')) 0 7)
     \<noteq> generateCRC8_bytes (Buffer_from (str ''Hi''))"
proof -
  have len: "(0::nat) < length (Buffer_from (str ''Hi''))" by code_simp
  have bit: "(7::nat) < 8" by simp
  show ?thesis using len bit C4_single_bit_sensitivity[OF len bit] by blast
qed

section \<open>Evaluated samples\<close>

lemma crc_Hi: "generateCRC8 (str ''Hi'') = 235"
  by code_simp

lemma packet_Hi_eq:
  "packet_Hi = [123, 34, 100, 97, 116, 97, 34, 58, 34, 72, 105, 34, 44, 34, 99, 114, 99, 34,
                58, 50, 51, 53, 125]"
  by (simp add: packet_Hi_def JSON_stringify_def QuoteJSONString_def quote_cp_def str_def
      decimal.simps)

lemma Buffer_from_packet_Hi:
  "Buffer_from packet_Hi = [123, 34, 100, 97, 116, 97, 34, 58, 34, 72, 105, 34, 44, 34, 99, 114,
                            99, 34, 58, 50, 51, 53, 125]"
  by (simp add: packet_Hi_eq Buffer_from_def utf8_encode_cp_def)

lemma stringify_not_signal: "JSON_stringify d c \<noteq> ACK" "JSON_stringify d c \<noteq> NAK"
  by (simp_all add: JSON_stringify_def ACK_def NAK_def str_def)

lemma parse_packet_Hi:
  "JSON_parse_sample packet_Hi
     = Some (JObj [(str ''data'', JStr (str ''Hi'')), (str ''crc'', JNum 235)])"
  by (simp add: JSON_parse_sample_def)

lemma parse_missing_crc:
  "JSON_parse_sample text_missing_crc = Some (JObj [(str ''data'', JStr (str ''Hi''))])"
  by (simp add: JSON_parse_sample_def packet_Hi_def text_missing_crc_def JSON_stringify_def
      QuoteJSONString_def quote_cp_def str_def decimal.simps)

lemma parse_missing_data:
  "JSON_parse_sample text_missing_data = Some (JObj [(str ''crc'', JNum 235)])"
  by (simp add: JSON_parse_sample_def packet_Hi_def text_missing_crc_def text_missing_data_def
      JSON_stringify_def QuoteJSONString_def quote_cp_def str_def decimal.simps)

lemma parse_null: "JSON_parse_sample (str ''null'') = Some JNull"
  by (simp add: JSON_parse_sample_def packet_Hi_def text_missing_crc_def text_missing_data_def
      JSON_stringify_def QuoteJSONString_def quote_cp_def str_def decimal.simps)

lemma parse_Hi: "JSON_parse_sample (str ''Hi'') = None"
  by (simp add: JSON_parse_sample_def packet_Hi_def text_missing_crc_def text_missing_data_def
      JSON_stringify_def QuoteJSONString_def quote_cp_def str_def decimal.simps)

section \<open>The receivers\<close>

text \<open>
  C5. On a well-formed envelope (the text parses to a record whose \<^verbatim>\<open>data\<close> is a string
  and whose \<^verbatim>\<open>crc\<close> is a number) the positive-and-negative receiver returns ACK when the
  checksum matches and NAK when it does not, the positive-only receiver ACK and
  \<^verbatim>\<open>null\<close> (no signal), the negative-only receiver \<^verbatim>\<open>null\<close> and NAK.
\<close>

theorem C5_receive_signal_table:
  assumes "parse packet = Some (JObj fs)"
    and "property fs (str ''data'') = JStr d"
    and "property fs (str ''crc'') = JNum n"
  shows "receive_ACKNAK parse fromObject packet
           = Inr (if real (generateCRC8 d) = n then JStr ACK else JStr NAK)
       \<and> receive_ACK parse fromObject packet
           = Inr (if real (generateCRC8 d) = n then JStr ACK else JNull)
       \<and> receive_NAK parse fromObject packet
           = Inr (if real (generateCRC8 d) = n then JNull else JStr NAK)"
  using assms
  by (auto simp add: receive_ACKNAK_def receive_ACK_def receive_NAK_def destructure_def
      verifyCRC8_def generateCRC8_value_def Buffer_from_value_def generateCRC8_def)

theorem C5_receive_signal_table_witness:
  "JSON_parse_sample packet_Hi
     = Some (JObj [(str ''data'', JStr (str ''Hi'')), (str ''crc'', JNum 235)])
   \<and> receive_ACKNAK JSON_parse_sample no_object packet_Hi = Inr (JStr ACK)
   \<and> receive_ACK JSON_parse_sample no_object packet_Hi = Inr (JStr ACK)
   \<and> receive_NAK JSON_parse_sample no_object packet_Hi = Inr JNull"
proof -
  have data: "property [(str ''data'', JStr (str ''Hi'')), (str ''crc'', JNum 235)] (str ''data'')
                = JStr (str ''Hi'')"
    by (simp add: property_def)
  have crc: "property [(str ''data'', JStr (str ''Hi'')), (str ''crc'', JNum 235)] (str ''crc'')
               = JNum 235"
    by (simp add: property_def str_def)
  show ?thesis
    using C5_receive_signal_table[of JSON_parse_sample packet_Hi _ "str ''Hi''" 235 no_object,
        OF parse_packet_Hi data crc] parse_packet_Hi
    by (simp add: crc_Hi)
qed

text \<open>
  C8, as stated, fails: the text \<^verbatim>\<open>{"data":"Hi"}\<close> parses to a record without the
  \<^verbatim>\<open>crc\<close> field, and the receiver raises nothing: it compares the checksum of \<^verbatim>\<open>Hi\<close>
  with \<^verbatim>\<open>undefined\<close> and returns NAK.
\<close>

theorem C8_counterexample:
  "receive_ACKNAK JSON_parse_sample no_object text_missing_crc = Inr (JStr NAK)"
  by (simp add: receive_ACKNAK_def parse_missing_crc destructure_def property_def str_def
      verifyCRC8_def generateCRC8_value_def Buffer_from_value_def)

text \<open>
  C8, amended. Each \<^verbatim>\<open>receive\<close> fails, returning no signal, on a text that
  \<^verbatim>\<open>JSON.parse\<close> rejects, on a text that parses to anything but a record, and on a record
  whose \<^verbatim>\<open>data\<close> is missing or is \<^verbatim>\<open>null\<close>, a boolean or a number. A record whose \<^verbatim>\<open>data\<close> is a string and
  whose \<^verbatim>\<open>crc\<close> is missing or is not the number computed is not rejected: the receiver
  returns its signal for a checksum mismatch.
\<close>

theorem C8_receive_malformed:
  "(parse packet = None \<longrightarrow>
      receive_ACKNAK parse fromObject packet = Inl SyntaxError
    \<and> receive_ACK parse fromObject packet = Inl SyntaxError
    \<and> receive_NAK parse fromObject packet = Inl SyntaxError)
 \<and> (parse packet = Some v \<and> v \<notin> range JObj \<longrightarrow>
      receive_ACKNAK parse fromObject packet = Inl TypeError
    \<and> receive_ACK parse fromObject packet = Inl TypeError
    \<and> receive_NAK parse fromObject packet = Inl TypeError)
 \<and> (parse packet = Some (JObj fs)
      \<and> property fs (str ''data'') \<in> {JUndefined, JNull} \<union> range JBool \<union> range JNum \<longrightarrow>
      receive_ACKNAK parse fromObject packet = Inl TypeError
    \<and> receive_ACK parse fromObject packet = Inl TypeError
    \<and> receive_NAK parse fromObject packet = Inl TypeError)
 \<and> (parse packet = Some (JObj fs) \<and> property fs (str ''data'') = JStr d
      \<and> property fs (str ''crc'') \<noteq> JNum (real (generateCRC8 d)) \<longrightarrow>
      receive_ACKNAK parse fromObject packet = Inr (JStr NAK)
    \<and> receive_ACK parse fromObject packet = Inr JNull
    \<and> receive_NAK parse fromObject packet = Inr (JStr NAK))"
  by (cases v)
     (auto simp add: receive_ACKNAK_def receive_ACK_def receive_NAK_def destructure_def
        verifyCRC8_def generateCRC8_value_def Buffer_from_value_def generateCRC8_def)

theorem C8_receive_malformed_witness:
  "JSON_parse_sample (str ''Hi'') = None
   \<and> receive_ACKNAK JSON_parse_sample no_object (str ''Hi'') = Inl SyntaxError
   \<and> JSON_parse_sample (str ''null'') = Some JNull
   \<and> receive_NAK JSON_parse_sample no_object (str ''null'') = Inl TypeError
   \<and> JSON_parse_sample text_missing_data = Some (JObj [(str ''crc'', JNum 235)])
   \<and> receive_ACKNAK JSON_parse_sample no_object text_missing_data = Inl TypeError
   \<and> JSON_parse_sample text_missing_crc = Some (JObj [(str ''data'', JStr (str ''Hi''))])
   \<and> receive_ACK JSON_parse_sample no_object text_missing_crc = Inr JNull"
proof -
  have nodata: "property [(str ''crc'', JNum 235)] (str ''data'') = JUndefined"
    by (simp add: property_def str_def)
  have data: "property [(str ''data'', JStr (str ''Hi''))] (str ''data'') = JStr (str ''Hi'')"
    by (simp add: property_def)
  have nocrc: "property [(str ''data'', JStr (str ''Hi''))] (str ''crc'') = JUndefined"
    by (simp add: property_def str_def)
  have norecord: "JNull \<notin> range JObj"
    by auto
  show ?thesis
    using C8_receive_malformed[where parse = JSON_parse_sample and packet = "str ''Hi''"
        and fromObject = no_object]
      C8_receive_malformed[where parse = JSON_parse_sample and packet = "str ''null''"
        and fromObject = no_object and v = JNull]
      C8_receive_malformed[where parse = JSON_parse_sample and packet = text_missing_data
        and fromObject = no_object and fs = "[(str ''crc'', JNum 235)]"]
      C8_receive_malformed[where parse = JSON_parse_sample and packet = text_missing_crc
        and fromObject = no_object and fs = "[(str ''data'', JStr (str ''Hi''))]"
        and d = "str ''Hi''"]
      parse_Hi parse_null parse_missing_data parse_missing_crc nodata data nocrc norecord
    by simp
qed

section \<open>The bit error\<close>

lemma binary64_between:
  assumes "0 < x" and "2 powr of_int k \<le> x" and "x < 2 powr of_int (k + 1)"
  shows "binary64 x
           = of_int (round_half_even (x / 2 powr of_int (k - 52))) * 2 powr of_int (k - 52)"
proof -
  have "\<lfloor>Transcendental.log 2 x\<rfloor> = k"
    using assms by (simp add: floor_log_eq_powr_iff)
  then show ?thesis
    using assms(1) by (simp add: binary64_def)
qed

text \<open>The two products of the sample, 0.875 * 23 and 0.875 * 8, are binary64 numbers.\<close>

lemma binary64_byte_index: "binary64 (161 / 8) = 161 / 8"
proof -
  have "binary64 (161 / 8)
          = of_int (round_half_even ((161 / 8) / 2 powr of_int (4 - 52))) * 2 powr of_int (4 - 52)"
    by (rule binary64_between) (simp_all add: powr_real_of_int powr_minus)
  also have "(161 / 8) / 2 powr of_int (4 - 52) = (of_int (161 * 2 ^ 45) :: real)"
    by (simp add: powr_real_of_int powr_minus)
  also have "round_half_even (of_int (161 * 2 ^ 45)) = 161 * 2 ^ 45"
    unfolding round_half_even_def by simp
  finally show ?thesis
    by (simp add: powr_real_of_int powr_minus)
qed

lemma binary64_bit_index: "binary64 7 = 7"
proof -
  have "binary64 7
          = of_int (round_half_even (7 / 2 powr of_int (2 - 52))) * 2 powr of_int (2 - 52)"
    by (rule binary64_between) (simp_all add: powr_real_of_int powr_minus)
  also have "7 / 2 powr of_int (2 - 52) = (of_int (7 * 2 ^ 50) :: real)"
    by (simp add: powr_real_of_int powr_minus)
  also have "round_half_even (of_int (7 * 2 ^ 50)) = 7 * 2 ^ 50"
    unfolding round_half_even_def by simp
  finally show ?thesis
    by (simp add: powr_real_of_int powr_minus)
qed

text \<open>
  A product that rounds up to an integer: with the draw 0.34782608695652173, which is
  1566469435607129 / 2^52, and 23 bytes the code chooses byte 8, though the exact product
  is below 8.
\<close>

lemma binary64_rounds_up:
  "binary64 (1566469435607129 / 2 ^ 52 * 23) = 8
   \<and> \<lfloor>1566469435607129 / 2 ^ 52 * 23 :: real\<rfloor> = 7"
proof -
  let ?x = "36028797018963967 / 4503599627370496 :: real"
  have x: "(1566469435607129 / 2 ^ 52 * 23 :: real) = ?x" by simp
  have "binary64 ?x
          = of_int (round_half_even (?x / 2 powr of_int (2 - 52))) * 2 powr of_int (2 - 52)"
    by (rule binary64_between) (simp_all add: powr_real_of_int powr_minus)
  also have "?x / 2 powr of_int (2 - 52) = 36028797018963967 / 4"
    by (simp add: powr_real_of_int powr_minus)
  also have "round_half_even (36028797018963967 / 4) = 9007199254740992"
    unfolding round_half_even_def by simp
  finally have "binary64 ?x = 8"
    by (simp add: powr_real_of_int powr_minus)
  moreover have "\<lfloor>?x\<rfloor> = 7" by simp
  ultimately show ?thesis unfolding x by simp
qed

text \<open>
  C7 fails on the code. With draws of 7/8 the bit error on the 23 bytes of the packet of
  \<^verbatim>\<open>Hi\<close> falls on byte 20 (the digit \<^verbatim>\<open>3\<close>, 0x33) and bit 7: the byte becomes 0xB3,
  which is no UTF-8 sequence, and \<^verbatim>\<open>toString("utf8")\<close> replaces it by U+FFFD. The string
  delivered has 25 bytes, the last five of them EF BF BD 35 7D where the packet has 33 35 7D.
\<close>

theorem C7_bit_error_replaced:
  "introduceBitError (constant_draws (7 / 8)) 0 packet_Hi
     = [123, 34, 100, 97, 116, 97, 34, 58, 34, 72, 105, 34, 44, 34, 99, 114, 99, 34, 58, 50,
        0xFFFD, 53, 125]
   \<and> Buffer_from (introduceBitError (constant_draws (7 / 8)) 0 packet_Hi)
     = [123, 34, 100, 97, 116, 97, 34, 58, 34, 72, 105, 34, 44, 34, 99, 114, 99, 34, 58, 50,
        0xEF, 0xBF, 0xBD, 53, 125]"
proof -
  have delivered:
    "introduceBitError (constant_draws (7 / 8)) 0 packet_Hi
       = [123, 34, 100, 97, 116, 97, 34, 58, 34, 72, 105, 34, 44, 34, 99, 114, 99, 34, 58, 50,
          0xFFFD, 53, 125]"
    by (simp add: introduceBitError_def Buffer_from_packet_Hi constant_draws_def flipBit_def
        is_cont_def Let_def binary64_byte_index binary64_bit_index)
  have bytes:
    "Buffer_from [123, 34, 100, 97, 116, 97, 34, 58, 34, 72, 105, 34, 44, 34, 99, 114, 99, 34,
                  58, 50, 0xFFFD, 53, 125]
       = [123, 34, 100, 97, 116, 97, 34, 58, 34, 72, 105, 34, 44, 34, 99, 114, 99, 34, 58, 50,
          0xEF, 0xBF, 0xBD, 53, 125]"
    by (simp add: Buffer_from_def utf8_encode_cp_def)
  show ?thesis
    unfolding delivered bytes by simp
qed

text \<open>
  Where the bit error is what the comment of line 155 says: on ASCII data and a bit below
  the top one the flipped byte is still ASCII, and the bytes of the string delivered are
  the bytes sent with that one bit flipped.
\<close>

lemma Buffer_from_ascii: "\<forall>c\<in>set s. c < 0x80 \<Longrightarrow> Buffer_from s = map of_nat s"
  by (induction s) (simp_all add: Buffer_from_def utf8_encode_cp_def)

lemma toString_utf8_ascii: "\<forall>b\<in>set bs. b < 0x80 \<Longrightarrow> toString_utf8 bs = map unat bs"
  by (induction bs) simp_all

lemma flip_ascii_table:
  "list_all (\<lambda>b. b < 0x80 \<longrightarrow> list_all (\<lambda>k. b XOR push_bit k 1 < 0x80) [0..<7])
     (map of_nat [0..<256] :: byte list)"
  by code_simp

lemma flip_ascii: "(b::byte) < 0x80 \<Longrightarrow> k < 7 \<Longrightarrow> b XOR push_bit k 1 < 0x80"
  using flip_ascii_table all_bytes[of b] unfolding list_all_iff by auto

lemma introduceBitError_ascii:
  assumes ascii: "\<forall>c\<in>set data. c < 0x80" and k: "k < 7"
  shows "Buffer_from (toString_utf8 (flipBit (Buffer_from data) i k))
           = flipBit (Buffer_from data) i k"
proof -
  have b: "\<forall>b\<in>set (Buffer_from data). b < 0x80"
    using ascii by (auto simp add: Buffer_from_ascii word_less_nat_alt unat_of_nat)
  have f: "\<forall>b\<in>set (flipBit (Buffer_from data) i k). b < 0x80"
  proof (cases "i < length (Buffer_from data)")
    case True
    then have "Buffer_from data ! i < 0x80" using b by simp
    then have "Buffer_from data ! i XOR push_bit k 1 < 0x80" using flip_ascii k by blast
    then show ?thesis
      using True b set_update_subset_insert[of "Buffer_from data" i]
      by (auto simp add: flipBit_def)
  next
    case False
    then show ?thesis using b by (simp add: flipBit_def)
  qed
  have "\<forall>c\<in>set (map unat (flipBit (Buffer_from data) i k)). c < 0x80"
    using f by (auto simp add: word_less_nat_alt)
  then have "Buffer_from (map unat (flipBit (Buffer_from data) i k))
               = map of_nat (map unat (flipBit (Buffer_from data) i k))"
    by (rule Buffer_from_ascii)
  then show ?thesis
    by (simp add: toString_utf8_ascii[OF f] comp_def)
qed

section \<open>The senders\<close>

lemma ACK_not_NAK: "ACK \<noteq> NAK"
  by (simp add: ACK_def NAK_def str_def)

lemma run_append:
  "run E (xs @ ys) w = (case run E xs w of None \<Rightarrow> None | Some w' \<Rightarrow> run E ys w')"
  by (induction xs arbitrary: w) (auto split: option.splits)

text \<open>
  With the socket of \<^verbatim>\<open>createVirtualSocket\<close>, a state without running code and without
  timers is final: no event can happen in it.
\<close>

lemma quiescent_final:
  "quiescent w \<Longrightarrow> sock E = VirtualSocket cfg \<Longrightarrow> step E e w = None"
  by (cases e) (simp_all add: quiescent_def)

text \<open>
  C1 fails on the code. On a channel without impairment the positive-and-negative sender
  of the payload \<^verbatim>\<open>Hi\<close> transmits the packet, the socket hands the packet itself to
  \<^verbatim>\<open>handleResponse\<close>, which ignores it, being neither \<^verbatim>\<open>"ACK"\<close> nor \<^verbatim>\<open>"NAK"\<close>: the program
  comes to rest, the completion callback was not invoked and no \<^verbatim>\<open>receive\<close> was called.
\<close>

theorem C1_clean_channel_never_completes:
  "\<exists>w. run clean_channel [Run, Run, Run, Run] (start ACKNAK (str ''Hi'')) = Some w
     \<and> log w = [Transmitted packet_Hi,
                Delivered (HandleResponseACKNAK packet_Hi) (JStr packet_Hi)]
     \<and> completions w = 0 \<and> quiescent w"
  by (simp add: start_def clean_channel_def crc_Hi packet_Hi_def stringify_not_signal
      VirtualSocket_send_def maybeCorruptData_def constant_draws_def Let_def
      completions_def quiescent_def)

text \<open>
  C9. The positive-only sender, on a socket that answers late: the first attempt is not
  answered in time, the timeout fires and retransmits, the ACK of the second attempt arrives
  and completes the send, then the ACK of the first attempt arrives and invokes the
  completion callback a second time. The last timer finds \<^verbatim>\<open>ackReceived\<close> set and does
  nothing.
\<close>

theorem C9_late_ack_completes_twice:
  "\<exists>w. run (injected t rnd)
          [Run, Run, Run, Run, Fire 0, Run, Run, Run,
           Respond 1 (JStr ACK), Run, Respond 0 (JStr ACK), Run, Fire 0]
          (start ACKonly data) = Some w
     \<and> log w = [Transmitted (JSON_stringify data (generateCRC8 data)),
                Transmitted (JSON_stringify data (generateCRC8 data)),
                Delivered (HandleResponseACK 1) (JStr ACK), Completed,
                Delivered (HandleResponseACK 0) (JStr ACK), Completed]
     \<and> completions w = 2 \<and> quiescent w"
  by (simp add: start_def injected_def Let_def completions_def quiescent_def)

lemma concat_replicate_snoc: "concat (replicate k xs) @ xs = xs @ concat (replicate k xs)"
  by (induction k) simp_all

lemma nth_Cons_replicate: "(x # replicate k x) ! k = x"
  using nth_replicate[of k "Suc k" x] by simp

lemma nak_round_ACKNAK:
  "run (injected t rnd) (nak_round k) (nak_world (HandleResponseACKNAK p) p k)
     = Some (nak_world (HandleResponseACKNAK p) p (Suc k))"
  by (simp add: nak_round_def nak_world_def injected_def ACK_not_NAK[symmetric] Let_def
      replicate_append_same nth_Cons_replicate concat_replicate_snoc)

lemma nak_round_NAK:
  "run (injected t rnd) (nak_round k) (nak_world (HandleResponseNAK p) p k)
     = Some (nak_world (HandleResponseNAK p) p (Suc k))"
  by (simp add: nak_round_def nak_world_def injected_def Let_def
      replicate_append_same nth_Cons_replicate concat_replicate_snoc)

lemma nak_rounds:
  assumes "\<And>k. run E (nak_round k) (nak_world h p k) = Some (nak_world h p (Suc k))"
  shows "run E (concat (map nak_round [0..<n])) (nak_world h p 0) = Some (nak_world h p n)"
  by (induction n) (simp_all add: run_append assms)

lemma timeout_round_ACK:
  "run (injected t rnd) timeout_round (timeout_world p t k) = Some (timeout_world p t (Suc k))"
  by (simp add: timeout_round_def timeout_world_def injected_def Let_def nth_append
      replicate_append_same nth_Cons_replicate)

lemma timeout_rounds:
  "run (injected t rnd) (concat (replicate n timeout_round)) (timeout_world p t 0)
     = Some (timeout_world p t n)"
  by (induction n) (simp_all add: run_append timeout_round_ACK replicate_append_same[symmetric])

lemma transmissions_nak_world: "transmissions (nak_world h p k) = replicate (Suc k) p"
  by (induction k) (simp_all add: transmissions_def nak_world_def)

lemma completions_nak_world: "completions (nak_world h p k) = 0"
  by (induction k) (simp_all add: completions_def nak_world_def)

lemma transmissions_timeout_world: "transmissions (timeout_world p t k) = replicate (Suc k) p"
  by (induction k) (simp_all add: transmissions_def timeout_world_def)

lemma completions_timeout_world: "completions (timeout_world p t k) = 0"
  by (simp add: completions_def timeout_world_def)

lemma none_round_ACK:
  "run (injected t rnd) (none_round k) (none_world p t k) = Some (none_world p t (Suc k))"
  by (simp add: none_round_def none_world_def injected_def Let_def nth_append
      replicate_append_same nth_Cons_replicate)

lemma none_rounds:
  "run (injected t rnd) (concat (map none_round [0..<n])) (none_world p t 0)
     = Some (none_world p t n)"
  by (induction n) (simp_all add: run_append none_round_ACK)

lemma transmissions_none_world: "transmissions (none_world p t k) = replicate (Suc k) p"
  by (induction k) (simp_all add: transmissions_def none_world_def replicate_append_same)

lemma completions_none_world: "completions (none_world p t k) = 0"
  by (induction k) (simp_all add: completions_def none_world_def)

lemma timeout_round_dropped:
  assumes "sock E = VirtualSocket cfg" and "\<forall>i. Math_random E i < dropProbability cfg"
  shows "run E timeout_round (dropped_world p (timeoutMs E) k)
           = Some (dropped_world p (timeoutMs E) (Suc k))"
  using assms
  by (simp add: timeout_round_def dropped_world_def Let_def VirtualSocket_send_def
      replicate_append_same nth_Cons_replicate)

lemma timeout_rounds_dropped:
  assumes "sock E = VirtualSocket cfg" and "\<forall>i. Math_random E i < dropProbability cfg"
  shows "run E (concat (replicate n timeout_round)) (dropped_world p (timeoutMs E) 0)
           = Some (dropped_world p (timeoutMs E) n)"
  by (induction n)
     (simp_all add: run_append timeout_round_dropped[OF assms]
        replicate_append_same[symmetric])

lemma transmissions_dropped_world: "transmissions (dropped_world p t k) = replicate (Suc k) p"
  by (induction k) (simp_all add: transmissions_def dropped_world_def)

lemma completions_dropped_world: "completions (dropped_world p t k) = 0"
  by (simp add: completions_def dropped_world_def)

lemma timeout_schedule_dropped:
  assumes "sock E = VirtualSocket cfg" and "\<forall>i. Math_random E i < dropProbability cfg"
  shows "run E (timeout_schedule n) (start ACKonly data)
           = Some (dropped_world (JSON_stringify data (generateCRC8 data)) (timeoutMs E) n)"
proof -
  have "run E [Run, Run, Run, Run] (start ACKonly data)
          = Some (dropped_world (JSON_stringify data (generateCRC8 data)) (timeoutMs E) 0)"
    using assms by (simp add: start_def dropped_world_def Let_def VirtualSocket_send_def)
  then show ?thesis
    unfolding timeout_schedule_def run_append
    by (simp add: timeout_rounds_dropped[OF assms])
qed

text \<open>The senders without a timer on a virtual socket that drops every packet.\<close>

lemma step_drop_phase:
  assumes "sock E = VirtualSocket cfg" and "\<forall>i. Math_random E i < dropProbability cfg"
    and "v \<noteq> ACKonly"
    and "drop_phase v data w"
    and "step E e w = Some w'"
  shows "drop_phase v data w'"
  using assms(4)
proof cases
  case sending
  then have e: "e = Run" using assms(5) by (cases e) simp_all
  obtain h where "w' = w\<lparr>stack := [SocketSend (JSON_stringify data (generateCRC8 data)) h]\<rparr>"
    using assms(3,5) sending unfolding e by (cases v) (auto simp add: Let_def)
  then show ?thesis
    using sending by (intro drop_phase.calling[where h = h]) simp_all
next
  case (calling h)
  then have e: "e = Run" using assms(5) by (cases e) simp_all
  have "w' = w\<lparr>stack := [], log := [Transmitted (JSON_stringify data (generateCRC8 data))],
               draws := draws w + 1\<rparr>"
    using assms(1,2,5) calling unfolding e by (simp add: Let_def VirtualSocket_send_def)
  then show ?thesis
    using calling by (intro drop_phase.waiting) simp_all
next
  case waiting
  then show ?thesis using assms(1,5) by (cases e) simp_all
qed

lemma run_drop_phase:
  "sock E = VirtualSocket cfg \<Longrightarrow> \<forall>i. Math_random E i < dropProbability cfg
   \<Longrightarrow> v \<noteq> ACKonly \<Longrightarrow> drop_phase v data w \<Longrightarrow> run E sched w = Some w'
   \<Longrightarrow> drop_phase v data w'"
proof (induction sched arbitrary: w)
  case Nil
  then show ?case by simp
next
  case (Cons e es)
  then obtain w1 where "step E e w = Some w1" and "run E es w1 = Some w'"
    by (auto split: option.splits)
  then show ?case using Cons.IH Cons.prems(1-4) step_drop_phase by blast
qed

lemma drop_phase_once:
  assumes "drop_phase v data w"
  shows "length (transmissions w) \<le> 1 \<and> completions w = 0"
  using assms by cases (simp_all add: transmissions_def completions_def)

lemma dropped_once:
  assumes "sock E = VirtualSocket cfg" and "\<forall>i. Math_random E i < dropProbability cfg"
    and "v \<noteq> ACKonly"
    and "run E sched (start v data) = Some w"
  shows "length (transmissions w) \<le> 1 \<and> completions w = 0"
proof -
  have "drop_phase v data (start v data)"
    by (rule drop_phase.sending) (simp_all add: start_def)
  then show ?thesis
    using run_drop_phase[OF assms(1-3) _ assms(4)] drop_phase_once by blast
qed

lemma dropped_waits:
  assumes "sock E = VirtualSocket cfg" and "\<forall>i. Math_random E i < dropProbability cfg"
    and "v \<noteq> ACKonly"
  shows "\<exists>w. run E [Run, Run] (start v data) = Some w
           \<and> transmissions w = [JSON_stringify data (generateCRC8 data)]
           \<and> completions w = 0 \<and> quiescent w \<and> (\<forall>e. step E e w = None)"
proof -
  obtain w where r: "run E [Run, Run] (start v data) = Some w"
    and t: "transmissions w = [JSON_stringify data (generateCRC8 data)]"
    and c: "completions w = 0" and q: "quiescent w"
    using assms
    by (cases v)
       (simp_all add: start_def Let_def VirtualSocket_send_def transmissions_def
          completions_def quiescent_def)
  show ?thesis
    using r t c q quiescent_final[OF q assms(1)] by blast
qed

lemma dropping_channel_drops:
  "sock dropping_channel = VirtualSocket \<lparr>dropProbability = 1, delayProbability = 0,
                                           errorProbability = 0, maxDelayMs = 1000\<rparr>"
  "\<forall>i. Math_random dropping_channel i
         < dropProbability \<lparr>dropProbability = 1, delayProbability = 0, errorProbability = 0,
                            maxDelayMs = 1000\<rparr>"
  by (simp_all add: dropping_channel_def constant_draws_def)

text \<open>
  C10, as stated, fails: on a channel that drops every packet the positive-and-negative
  sender transmits once and the program comes to rest, with no timer and no code running.
  No schedule of that channel reaches a second transmission: this sender retransmits on a
  NAK only.
\<close>

theorem C10_counterexample:
  "run dropping_channel [Run, Run] (start ACKNAK (str ''Hi''))
     = Some \<lparr>stack = [], timers = [], ackReceived = [], draws = 1, registered = [],
             log = [Transmitted packet_Hi]\<rparr>
   \<and> \<not> (\<exists>sched w. run dropping_channel sched (start ACKNAK (str ''Hi'')) = Some w
                  \<and> 2 \<le> length (transmissions w))"
proof -
  have "run dropping_channel [Run, Run] (start ACKNAK (str ''Hi''))
     = Some \<lparr>stack = [], timers = [], ackReceived = [], draws = 1, registered = [],
             log = [Transmitted packet_Hi]\<rparr>"
    by (simp add: start_def dropping_channel_def crc_Hi packet_Hi_def VirtualSocket_send_def
        constant_draws_def Let_def)
  moreover have "length (transmissions w) \<le> 1"
    if "run dropping_channel sched (start ACKNAK (str ''Hi'')) = Some w" for sched w
    using dropped_once[OF dropping_channel_drops _ that] by simp
  ultimately show ?thesis by fastforce
qed

text \<open>
  C10, amended. No sender bounds its retransmissions, and the failures that make it
  retransmit differ. For every \<open>n\<close> there is a schedule with \<open>n + 1\<close> transmissions of the
  same packet and no completion: for the positive-and-negative and the negative-only sender
  when every attempt is answered NAK (corrupted); for the positive-only sender when no
  attempt is answered (dropped) and when every attempt is answered with the \<^verbatim>\<open>null\<close> of its
  receiver (corrupted), the timeout firing each time; the answers are those of an injected
  socket. On the virtual socket, when every packet is dropped, the positive-only sender
  likewise makes \<open>n + 1\<close> transmissions for every \<open>n\<close>, whereas the other two senders make
  at most one transmission on every schedule, never complete, and after the one
  transmission come to rest in a state where no event can happen.
\<close>

theorem C10_unbounded_retransmission:
  "(\<exists>w. run (injected t rnd) (nak_schedule n) (start ACKNAK data) = Some w
      \<and> transmissions w = replicate (Suc n) (JSON_stringify data (generateCRC8 data))
      \<and> completions w = 0)
 \<and> (\<exists>w. run (injected t rnd) (nak_schedule n) (start NAKonly data) = Some w
      \<and> transmissions w = replicate (Suc n) (JSON_stringify data (generateCRC8 data))
      \<and> completions w = 0)
 \<and> (\<exists>w. run (injected t rnd) (timeout_schedule n) (start ACKonly data) = Some w
      \<and> transmissions w = replicate (Suc n) (JSON_stringify data (generateCRC8 data))
      \<and> completions w = 0)
 \<and> (\<exists>w. run (injected t rnd) (none_schedule n) (start ACKonly data) = Some w
      \<and> transmissions w = replicate (Suc n) (JSON_stringify data (generateCRC8 data))
      \<and> completions w = 0)
 \<and> (sock E = VirtualSocket cfg \<and> (\<forall>i. Math_random E i < dropProbability cfg) \<longrightarrow>
      (\<exists>w. run E (timeout_schedule n) (start ACKonly data) = Some w
         \<and> transmissions w = replicate (Suc n) (JSON_stringify data (generateCRC8 data))
         \<and> completions w = 0)
    \<and> (\<forall>v sched w. v \<noteq> ACKonly \<and> run E sched (start v data) = Some w \<longrightarrow>
          length (transmissions w) \<le> 1 \<and> completions w = 0)
    \<and> (\<forall>v. v \<noteq> ACKonly \<longrightarrow>
          (\<exists>w. run E [Run, Run] (start v data) = Some w
             \<and> transmissions w = [JSON_stringify data (generateCRC8 data)]
             \<and> completions w = 0 \<and> quiescent w \<and> (\<forall>e. step E e w = None))))"
proof -
  let ?p = "JSON_stringify data (generateCRC8 data)"
  have a: "run (injected t rnd) [Run, Run] (start ACKNAK data)
             = Some (nak_world (HandleResponseACKNAK ?p) ?p 0)"
    by (simp add: start_def nak_world_def injected_def Let_def)
  have b: "run (injected t rnd) [Run, Run] (start NAKonly data)
             = Some (nak_world (HandleResponseNAK ?p) ?p 0)"
    by (simp add: start_def nak_world_def injected_def Let_def)
  have c: "run (injected t rnd) [Run, Run, Run, Run] (start ACKonly data)
             = Some (timeout_world ?p t 0)"
    by (simp add: start_def timeout_world_def injected_def Let_def)
  have d: "run (injected t rnd) [Run, Run, Run, Run] (start ACKonly data)
             = Some (none_world ?p t 0)"
    by (simp add: start_def none_world_def injected_def Let_def)
  have 1: "run (injected t rnd) (nak_schedule n) (start ACKNAK data)
          = Some (nak_world (HandleResponseACKNAK ?p) ?p n)"
    unfolding nak_schedule_def run_append a
    by (simp add: nak_rounds[OF nak_round_ACKNAK])
  have 2: "run (injected t rnd) (nak_schedule n) (start NAKonly data)
          = Some (nak_world (HandleResponseNAK ?p) ?p n)"
    unfolding nak_schedule_def run_append b
    by (simp add: nak_rounds[OF nak_round_NAK])
  have 3: "run (injected t rnd) (timeout_schedule n) (start ACKonly data)
          = Some (timeout_world ?p t n)"
    unfolding timeout_schedule_def run_append c
    by (simp add: timeout_rounds)
  have 4: "run (injected t rnd) (none_schedule n) (start ACKonly data)
          = Some (none_world ?p t n)"
    unfolding none_schedule_def run_append d
    by (simp add: none_rounds)
  have 5: "\<exists>w. run E (timeout_schedule n) (start ACKonly data) = Some w
         \<and> transmissions w = replicate (Suc n) ?p \<and> completions w = 0"
    if "sock E = VirtualSocket cfg" "\<forall>i. Math_random E i < dropProbability cfg"
    using timeout_schedule_dropped[OF that]
    by (simp add: transmissions_dropped_world completions_dropped_world)
  have 6: "length (transmissions w) \<le> 1 \<and> completions w = 0"
    if "sock E = VirtualSocket cfg" "\<forall>i. Math_random E i < dropProbability cfg"
      "v \<noteq> ACKonly" "run E sched (start v data) = Some w" for v sched w
    using dropped_once[OF that] .
  have 7: "\<exists>w. run E [Run, Run] (start v data) = Some w
             \<and> transmissions w = [?p]
             \<and> completions w = 0 \<and> quiescent w \<and> (\<forall>e. step E e w = None)"
    if "sock E = VirtualSocket cfg" "\<forall>i. Math_random E i < dropProbability cfg"
      "v \<noteq> ACKonly" for v
    using dropped_waits[OF that] .
  have injected_part:
    "(\<exists>w. run (injected t rnd) (nak_schedule n) (start ACKNAK data) = Some w
        \<and> transmissions w = replicate (Suc n) ?p \<and> completions w = 0)
   \<and> (\<exists>w. run (injected t rnd) (nak_schedule n) (start NAKonly data) = Some w
        \<and> transmissions w = replicate (Suc n) ?p \<and> completions w = 0)
   \<and> (\<exists>w. run (injected t rnd) (timeout_schedule n) (start ACKonly data) = Some w
        \<and> transmissions w = replicate (Suc n) ?p \<and> completions w = 0)
   \<and> (\<exists>w. run (injected t rnd) (none_schedule n) (start ACKonly data) = Some w
        \<and> transmissions w = replicate (Suc n) ?p \<and> completions w = 0)"
    unfolding 1 2 3 4
    by (simp add: transmissions_nak_world completions_nak_world transmissions_timeout_world
        completions_timeout_world transmissions_none_world completions_none_world)
  show ?thesis
    using injected_part 5 6 7 by blast
qed

theorem C10_unbounded_retransmission_witness:
  "sock dropping_channel = VirtualSocket \<lparr>dropProbability = 1, delayProbability = 0,
                                           errorProbability = 0, maxDelayMs = 1000\<rparr>
   \<and> (\<forall>i. Math_random dropping_channel i < 1)
   \<and> NAKonly \<noteq> ACKonly
   \<and> run dropping_channel [Run, Run] (start NAKonly (str ''Hi''))
       = Some \<lparr>stack = [], timers = [], ackReceived = [], draws = 1, registered = [],
               log = [Transmitted packet_Hi]\<rparr>
   \<and> length (transmissions \<lparr>stack = [], timers = [], ackReceived = [], draws = 1,
               registered = [], log = [Transmitted packet_Hi]\<rparr>) \<le> 1
   \<and> completions \<lparr>stack = [], timers = [], ackReceived = [], draws = 1,
               registered = [], log = [Transmitted packet_Hi]\<rparr> = 0
   \<and> (\<exists>w. run dropping_channel (timeout_schedule 3) (start ACKonly (str ''Hi'')) = Some w
         \<and> transmissions w = replicate 4 packet_Hi \<and> completions w = 0)"
proof -
  let ?cfg = "\<lparr>dropProbability = 1, delayProbability = 0, errorProbability = 0,
               maxDelayMs = 1000\<rparr>"
  let ?w = "\<lparr>stack = [], timers = [], ackReceived = [], draws = 1, registered = [],
             log = [Transmitted packet_Hi]\<rparr>"
  have s: "sock dropping_channel = VirtualSocket ?cfg"
    and d: "\<forall>i. Math_random dropping_channel i < dropProbability ?cfg"
    by (simp_all add: dropping_channel_def constant_draws_def)
  have r: "run dropping_channel [Run, Run] (start NAKonly (str ''Hi'')) = Some ?w"
    by (simp add: start_def dropping_channel_def crc_Hi packet_Hi_def VirtualSocket_send_def
        constant_draws_def Let_def)
  note inst = C10_unbounded_retransmission[where E = dropping_channel and cfg = ?cfg
      and data = "str ''Hi''" and n = 3 and t = 0 and rnd = "constant_draws 0"]
  from inst s d have once: "\<forall>v sched w. v \<noteq> ACKonly
        \<and> run dropping_channel sched (start v (str ''Hi'')) = Some w \<longrightarrow>
          length (transmissions w) \<le> 1 \<and> completions w = 0"
    by blast
  from inst s d have many: "\<exists>w. run dropping_channel (timeout_schedule 3)
                                 (start ACKonly (str ''Hi'')) = Some w
         \<and> transmissions w = replicate (Suc 3) (JSON_stringify (str ''Hi'')
                                                 (generateCRC8 (str ''Hi'')))
         \<and> completions w = 0"
    by blast
  have "length (transmissions ?w) \<le> 1 \<and> completions ?w = 0"
    using once r by blast
  moreover have "\<exists>w. run dropping_channel (timeout_schedule 3) (start ACKonly (str ''Hi''))
                        = Some w
         \<and> transmissions w = replicate 4 packet_Hi \<and> completions w = 0"
    using many by (simp add: crc_Hi packet_Hi_def)
  ultimately show ?thesis
    using s d r by simp
qed

section \<open>The senders on the virtual socket\<close>

lemma push_bit_byte_cases:
  "push_bit k (1::byte) \<in> {0, 1, 2, 4, 8, 16, 32, 64, 128}"
proof (cases "k < 8")
  case True
  then have "k = 0 \<or> k = 1 \<or> k = 2 \<or> k = 3 \<or> k = 4 \<or> k = 5 \<or> k = 6 \<or> k = 7" by arith
  then show ?thesis by (elim disjE) simp_all
next
  case False
  then have "push_bit k (1::byte) = 0" by simp
  then show ?thesis by simp
qed

lemma toString_brace_flipped:
  "b \<in> {0, 1, 2, 4, 8, 16, 32, 64, 128} \<Longrightarrow>
   hd (toString_utf8 ((0x7B XOR b) # bs)) \<notin> {65, 78} \<and> toString_utf8 ((0x7B XOR b) # bs) \<noteq> []"
  by (elim insertE) simp_all

lemma Buffer_from_stringify:
  "\<exists>rest. Buffer_from (JSON_stringify d c) = 0x7B # rest"
  by (simp add: JSON_stringify_def Buffer_from_def utf8_encode_cp_def)

lemma flipBit_brace:
  "\<exists>b bs. b \<in> {0, 1, 2, 4, 8, 16, 32, 64, 128} \<and> flipBit (0x7B # rest) i k = (0x7B XOR b) # bs"
proof (cases i)
  case 0
  have "flipBit (0x7B # rest) 0 k = (0x7B XOR push_bit k 1) # rest"
    by (simp add: flipBit_def)
  with 0 show ?thesis using push_bit_byte_cases[of k] by blast
next
  case (Suc j)
  have "flipBit (0x7B # rest) (Suc j) k
          = (0x7B XOR 0) # (if j < length rest then rest[j := rest ! j XOR push_bit k 1] else rest)"
    by (simp add: flipBit_def)
  moreover have "(0::byte) \<in> {0, 1, 2, 4, 8, 16, 32, 64, 128}" by simp
  ultimately show ?thesis using Suc by blast
qed

lemma bit_error_hd:
  "hd (toString_utf8 (flipBit (Buffer_from (JSON_stringify d c)) i k)) \<notin> {65, 78}"
proof -
  obtain rest where r: "Buffer_from (JSON_stringify d c) = 0x7B # rest"
    using Buffer_from_stringify by blast
  obtain b bs where b: "b \<in> {0, 1, 2, 4, 8, 16, 32, 64, 128}"
    and f: "flipBit (0x7B # rest) i k = (0x7B XOR b) # bs"
    using flipBit_brace by blast
  show ?thesis
    unfolding r f using toString_brace_flipped[OF b] by blast
qed

lemma bit_error_not_signal:
  "toString_utf8 (flipBit (Buffer_from (JSON_stringify d c)) i k) \<noteq> ACK"
  "toString_utf8 (flipBit (Buffer_from (JSON_stringify d c)) i k) \<noteq> NAK"
proof -
  have "hd ACK = 65" "hd NAK = 78" by (simp_all add: ACK_def NAK_def str_def)
  then show "toString_utf8 (flipBit (Buffer_from (JSON_stringify d c)) i k) \<noteq> ACK"
    "toString_utf8 (flipBit (Buffer_from (JSON_stringify d c)) i k) \<noteq> NAK"
    using bit_error_hd[of d c i k] by auto
qed

lemma possibly_corrupted_not_signal:
  "possibly_corrupted (JSON_stringify d c) v \<Longrightarrow> v \<noteq> JStr ACK \<and> v \<noteq> JStr NAK"
  unfolding possibly_corrupted_def
  using stringify_not_signal[of d c] bit_error_not_signal[of d c] by auto

lemma maybeCorruptData_possibly:
  "maybeCorruptData cfg rnd n d = (d', m) \<Longrightarrow> possibly_corrupted d (JStr d')"
  by (auto simp add: maybeCorruptData_def introduceBitError_def possibly_corrupted_def Let_def
      split: if_splits)

lemma invoke_envelope_inv:
  assumes "envelope_inv v data w"
    and "sender_handler v (JSON_stringify data (generateCRC8 data)) h"
    and "possibly_corrupted (JSON_stringify data (generateCRC8 data)) response"
  shows "envelope_inv v data (invoke h response (w\<lparr>log := log w @ [Delivered h response]\<rparr>))"
proof -
  have r: "response \<noteq> JStr ACK" "response \<noteq> JStr NAK"
    using possibly_corrupted_not_signal[OF assms(3)] by simp_all
  show ?thesis
    using assms r by (cases v; cases h) (simp_all add: envelope_inv_def)
qed

lemma exec_frame_envelope_inv:
  assumes "sock E = VirtualSocket cfg"
    and "envelope_inv v data w"
    and "packet_frame v data (JSON_stringify data (generateCRC8 data)) f"
  shows "envelope_inv v data (exec_frame E f w)"
proof (cases f)
  case (LayerSend v' d)
  then show ?thesis using assms by (cases v) (simp_all add: envelope_inv_def Let_def)
next
  case (SendWithTimeout q)
  then show ?thesis using assms by (simp add: envelope_inv_def Let_def)
next
  case (SocketSend q h)
  then show ?thesis
    using assms by (simp add: envelope_inv_def Let_def VirtualSocket_send_def)
next
  case (CallbackMaybeCorrupt h d)
  obtain d' m where c: "maybeCorruptData cfg (Math_random E) (draws w) d = (d', m)"
    by (cases "maybeCorruptData cfg (Math_random E) (draws w) d")
  show ?thesis
    using assms CallbackMaybeCorrupt c maybeCorruptData_possibly[OF c]
    by (simp add: envelope_inv_def)
next
  case (Invoke h response)
  then show ?thesis using assms invoke_envelope_inv[of v data w h response] by simp
next
  case (SetTimeout t delay)
  then show ?thesis using assms by (simp add: envelope_inv_def)
qed

lemma step_envelope_inv:
  assumes "sock E = VirtualSocket cfg"
    and "envelope_inv v data w"
    and "step E e w = Some w'"
  shows "envelope_inv v data w'"
proof (cases e)
  case Run
  then obtain f fs where s: "stack w = f # fs" and w': "w' = exec_frame E f (w\<lparr>stack := fs\<rparr>)"
    using assms(3) by (auto split: list.splits)
  have "envelope_inv v data (w\<lparr>stack := fs\<rparr>)"
    and "packet_frame v data (JSON_stringify data (generateCRC8 data)) f"
    using assms(2) s by (simp_all add: envelope_inv_def)
  then show ?thesis
    unfolding w' using exec_frame_envelope_inv[OF assms(1)] by blast
next
  case (Fire i)
  then have i: "i < length (timers w)" and s: "stack w = []"
    and w': "w' = run_task (fst (timers w ! i))
                    (w\<lparr>timers := take i (timers w) @ drop (Suc i) (timers w)\<rparr>)"
    using assms(3) by (auto split: if_splits)
  let ?p = "JSON_stringify data (generateCRC8 data)"
  have all: "list_all (\<lambda>t. packet_task v ?p (fst t)) (timers w)"
    using assms(2) by (simp add: envelope_inv_def)
  have t: "packet_task v ?p (fst (timers w ! i))"
    using all i by (simp add: list_all_length)
  have rest: "list_all (\<lambda>t. packet_task v ?p (fst t)) (take i (timers w) @ drop (Suc i) (timers w))"
    using all by (auto simp add: list_all_iff dest: in_set_takeD in_set_dropD)
  show ?thesis
    unfolding w' using t rest assms(2) s
    by (cases "fst (timers w ! i)") (simp_all add: envelope_inv_def)
next
  case (Respond i response)
  then show ?thesis using assms by simp
qed

lemma run_envelope_inv:
  "sock E = VirtualSocket cfg \<Longrightarrow> envelope_inv v data w \<Longrightarrow> run E sched w = Some w'
   \<Longrightarrow> envelope_inv v data w'"
proof (induction sched arbitrary: w)
  case Nil
  then show ?case by simp
next
  case (Cons e es)
  then obtain w1 where "step E e w = Some w1" and "run E es w1 = Some w'"
    by (auto split: option.splits)
  then show ?case using Cons.IH Cons.prems(1,2) step_envelope_inv by blast
qed

lemma start_envelope_inv: "envelope_inv v data (start v data)"
  by (simp add: envelope_inv_def start_def)

text \<open>
  On the virtual socket the positive-and-negative and the positive-only sender never
  invoke the completion callback, whatever the payload, the configuration, the draws and the
  order of the timers: their handlers wait for \<^verbatim>\<open>"ACK"\<close>, which the socket never delivers.
\<close>

lemma never_completes:
  assumes "sock E = VirtualSocket cfg"
    and "run E sched (start v data) = Some w"
    and "v \<noteq> NAKonly"
  shows "completions w = 0"
proof -
  have "envelope_inv v data w"
    using run_envelope_inv[OF assms(1) start_envelope_inv assms(2)] .
  then have "\<forall>e\<in>set (log w). packet_obs v (JSON_stringify data (generateCRC8 data)) e"
    unfolding envelope_inv_def list_all_iff by blast
  then have "\<forall>e\<in>set (log w). e \<noteq> Completed"
    using assms(3) by auto
  then show ?thesis
    by (simp add: completions_def filter_empty_conv)
qed

text \<open>
  C2. A sender of any of the three layers on the socket of \<^verbatim>\<open>createVirtualSocket\<close>, with
  any probabilities, any random draws and any order of the timers: every value the socket
  hands to a callback goes to the response handler of the sender and is the packet itself,
  possibly with a bit error. It is never the string \<^verbatim>\<open>"ACK"\<close> or \<^verbatim>\<open>"NAK"\<close> that a
  \<^verbatim>\<open>receive\<close> returns; the socket calls nothing but the callback it was given.
\<close>

theorem C2_handler_gets_envelope:
  assumes "sock E = VirtualSocket cfg"
    and "run E sched (start v data) = Some w"
    and "Delivered h response \<in> set (log w)"
  shows "sender_handler v (JSON_stringify data (generateCRC8 data)) h
       \<and> possibly_corrupted (JSON_stringify data (generateCRC8 data)) response
       \<and> response \<noteq> JStr ACK \<and> response \<noteq> JStr NAK"
proof -
  have "envelope_inv v data w"
    using run_envelope_inv[OF assms(1) start_envelope_inv assms(2)] .
  then have "packet_obs v (JSON_stringify data (generateCRC8 data)) (Delivered h response)"
    using assms(3) unfolding envelope_inv_def list_all_iff by blast
  then have h: "sender_handler v (JSON_stringify data (generateCRC8 data)) h"
    and r: "possibly_corrupted (JSON_stringify data (generateCRC8 data)) response"
    by simp_all
  show ?thesis
    using h r possibly_corrupted_not_signal[OF r] by blast
qed

theorem C2_handler_gets_envelope_witness:
  "sock clean_channel = VirtualSocket \<lparr>dropProbability = 0, delayProbability = 0,
                                        errorProbability = 0, maxDelayMs = 1000\<rparr>
   \<and> run clean_channel [Run, Run, Run, Run] (start ACKNAK (str ''Hi''))
       = Some \<lparr>stack = [], timers = [], ackReceived = [], draws = 3, registered = [],
               log = [Transmitted packet_Hi,
                      Delivered (HandleResponseACKNAK packet_Hi) (JStr packet_Hi)]\<rparr>
   \<and> sender_handler ACKNAK packet_Hi (HandleResponseACKNAK packet_Hi)
   \<and> possibly_corrupted packet_Hi (JStr packet_Hi)
   \<and> JStr packet_Hi \<noteq> JStr ACK \<and> JStr packet_Hi \<noteq> JStr NAK"
proof -
  have s: "sock clean_channel = VirtualSocket \<lparr>dropProbability = 0, delayProbability = 0,
                                        errorProbability = 0, maxDelayMs = 1000\<rparr>"
    by (simp add: clean_channel_def)
  have r: "run clean_channel [Run, Run, Run, Run] (start ACKNAK (str ''Hi''))
       = Some \<lparr>stack = [], timers = [], ackReceived = [], draws = 3, registered = [],
               log = [Transmitted packet_Hi,
                      Delivered (HandleResponseACKNAK packet_Hi) (JStr packet_Hi)]\<rparr>"
    by (simp add: start_def clean_channel_def crc_Hi packet_Hi_def stringify_not_signal
        VirtualSocket_send_def maybeCorruptData_def constant_draws_def Let_def)
  have m: "Delivered (HandleResponseACKNAK packet_Hi) (JStr packet_Hi)
             \<in> set (log \<lparr>stack = [], timers = [], ackReceived = [], draws = 3, registered = [],
               log = [Transmitted packet_Hi,
                      Delivered (HandleResponseACKNAK packet_Hi) (JStr packet_Hi)]\<rparr>)"
    by simp
  show ?thesis
    using C2_handler_gets_envelope[OF s r m] s r by (simp add: crc_Hi packet_Hi_def)
qed

section \<open>The virtual socket\<close>

lemma fst_maybeCorruptData: "possibly_corrupted d (JStr (fst (maybeCorruptData cfg rnd n d)))"
  using maybeCorruptData_possibly[of cfg rnd n d] by (cases "maybeCorruptData cfg rnd n d") simp

lemma step_channel_phase:
  assumes "sock E = VirtualSocket cfg"
    and "channel_phase cfg (Math_random E) data w"
    and "step E e w = Some w'"
  shows "channel_phase cfg (Math_random E) data w'"
  using assms(2)
proof cases
  case call
  then have e: "e = Run" using assms(3) by (cases e) simp_all
  have w': "w' = VirtualSocket_send cfg (Math_random E) data Server
                   (w\<lparr>stack := [], log := [Transmitted data]\<rparr>)"
    using assms(1,3) call unfolding e by (simp add: Let_def)
  consider (a) "Math_random E 0 < dropProbability cfg"
    | (b) "\<not> Math_random E 0 < dropProbability cfg" "Math_random E (Suc 0) < delayProbability cfg"
    | (c) "\<not> Math_random E 0 < dropProbability cfg" "\<not> Math_random E (Suc 0) < delayProbability cfg"
    by blast
  then show ?thesis
  proof cases
    case a
    show ?thesis
      by (rule channel_phase.dropped) (simp_all add: w' VirtualSocket_send_def call a)
  next
    case b
    show ?thesis
      by (rule channel_phase.set_timer[where delay = "binary64 (Math_random E (Suc (Suc 0)) * maxDelayMs cfg)"])
         (simp_all add: w' VirtualSocket_send_def call b)
  next
    case c
    show ?thesis
      by (rule channel_phase.deliver) (simp_all add: w' VirtualSocket_send_def call c)
  qed
next
  case dropped
  then show ?thesis using assms(1,3) by (cases e) simp_all
next
  case (set_timer delay)
  then have e: "e = Run" using assms(3) by (cases e) simp_all
  have w': "w' = w\<lparr>stack := [], timers := [(Deliver Server data, delay)]\<rparr>"
    using assms(3) set_timer unfolding e by simp
  show ?thesis
    by (rule channel_phase.pending[where delay = delay])
       (simp_all add: w' set_timer)
next
  case (pending delay)
  then have e: "e = Fire 0" using assms(1,3) by (cases e) (simp_all split: if_splits)
  have w': "w' = w\<lparr>timers := [], stack := [CallbackMaybeCorrupt Server data]\<rparr>"
    using assms(3) pending unfolding e by simp
  show ?thesis
    by (rule channel_phase.deliver) (simp_all add: w' pending)
next
  case deliver
  then have e: "e = Run" using assms(3) by (cases e) simp_all
  let ?c = "maybeCorruptData cfg (Math_random E) (draws w) data"
  have w': "w' = w\<lparr>stack := [], draws := snd ?c, stack := [Invoke Server (JStr (fst ?c))]\<rparr>"
    using assms(1,3) deliver unfolding e by (simp add: case_prod_beta)
  show ?thesis
    by (rule channel_phase.callback[where v = "JStr (fst ?c)"])
       (simp_all add: w' deliver fst_maybeCorruptData)
next
  case (callback v)
  then have e: "e = Run" using assms(3) by (cases e) simp_all
  have w': "w' = w\<lparr>stack := [], log := [Transmitted data, Delivered Server v]\<rparr>"
    using assms(3) callback unfolding e by simp
  show ?thesis
    by (rule channel_phase.delivered[where v = v])
       (simp_all add: w' callback)
next
  case (delivered v)
  then show ?thesis using assms(1,3) by (cases e) simp_all
qed

lemma run_channel_phase:
  "sock E = VirtualSocket cfg \<Longrightarrow> channel_phase cfg (Math_random E) data w
   \<Longrightarrow> run E sched w = Some w' \<Longrightarrow> channel_phase cfg (Math_random E) data w'"
proof (induction sched arbitrary: w)
  case Nil
  then show ?case by simp
next
  case (Cons e es)
  then obtain w1 where "step E e w = Some w1" and "run E es w1 = Some w'"
    by (auto split: option.splits)
  then show ?case using Cons.IH Cons.prems(1,2) step_channel_phase by blast
qed

lemma channel_phase_dropped:
  assumes "channel_phase cfg rnd data w" and "rnd 0 < dropProbability cfg"
  shows "deliveries w = [] \<and> timers w = []"
  using assms(1) by cases (use assms(2) in \<open>simp_all add: deliveries_def\<close>)

lemma channel_phase_delivered:
  assumes "channel_phase cfg rnd data w" and "\<not> rnd 0 < dropProbability cfg"
  shows "length (deliveries w) \<le> 1
     \<and> (\<forall>d\<in>set (deliveries w). fst d = Server \<and> possibly_corrupted data (snd d))
     \<and> (quiescent w \<longrightarrow> length (deliveries w) = 1)"
  using assms(1) by cases (use assms(2) in \<open>simp_all add: deliveries_def quiescent_def\<close>)

lemma socket_call_comes_to_rest:
  assumes "sock E = VirtualSocket cfg"
  shows "\<exists>sched w. run E sched (socket_call data Server) = Some w \<and> quiescent w"
proof -
  consider (dropped) "Math_random E 0 < dropProbability cfg"
    | (delayed) "\<not> Math_random E 0 < dropProbability cfg"
        "Math_random E (Suc 0) < delayProbability cfg"
    | (direct) "\<not> Math_random E 0 < dropProbability cfg"
        "\<not> Math_random E (Suc 0) < delayProbability cfg"
    by blast
  then show ?thesis
  proof cases
    case dropped
    then have "\<exists>w. run E [Run] (socket_call data Server) = Some w \<and> quiescent w"
      using assms by (simp add: socket_call_def VirtualSocket_send_def quiescent_def)
    then show ?thesis by blast
  next
    case delayed
    then have "\<exists>w. run E [Run, Run, Fire 0, Run, Run] (socket_call data Server) = Some w
                 \<and> quiescent w"
      using assms
      by (simp add: socket_call_def VirtualSocket_send_def quiescent_def case_prod_beta)
    then show ?thesis by blast
  next
    case direct
    then have "\<exists>w. run E [Run, Run, Run] (socket_call data Server) = Some w \<and> quiescent w"
      using assms
      by (simp add: socket_call_def VirtualSocket_send_def quiescent_def case_prod_beta)
    then show ?thesis by blast
  qed
qed

text \<open>
  C6. A call of \<^verbatim>\<open>send\<close> of the virtual socket, with a callback that only observes (the
  server of line 189), in any configuration and with any draws. There is a schedule on
  which the program comes to rest. If the drop trial fires (the first draw is below \<^verbatim>\<open>dropProbability\<close>) the callback
  is never invoked and no timer is ever set. Otherwise the callback is invoked at most once
  at any moment and exactly once when the program has come to rest, with the data or with
  the data after a bit error.
\<close>

theorem C6_deliver_once_or_drop:
  assumes "sock E = VirtualSocket cfg"
  shows "(\<exists>sched w. run E sched (socket_call data Server) = Some w \<and> quiescent w)
       \<and> (\<forall>sched w. run E sched (socket_call data Server) = Some w \<longrightarrow>
            (if Math_random E 0 < dropProbability cfg
             then deliveries w = [] \<and> timers w = []
             else length (deliveries w) \<le> 1
                \<and> (\<forall>d\<in>set (deliveries w). fst d = Server \<and> possibly_corrupted data (snd d))
                \<and> (quiescent w \<longrightarrow> length (deliveries w) = 1)))"
proof (intro conjI allI impI)
  show "\<exists>sched w. run E sched (socket_call data Server) = Some w \<and> quiescent w"
    using socket_call_comes_to_rest[OF assms] .
next
  fix sched w
  assume r: "run E sched (socket_call data Server) = Some w"
  have "channel_phase cfg (Math_random E) data (socket_call data Server)"
    by (rule channel_phase.call) (simp_all add: socket_call_def)
  then have p: "channel_phase cfg (Math_random E) data w"
    using run_channel_phase[OF assms _ r] by blast
  show "if Math_random E 0 < dropProbability cfg
        then deliveries w = [] \<and> timers w = []
        else length (deliveries w) \<le> 1
           \<and> (\<forall>d\<in>set (deliveries w). fst d = Server \<and> possibly_corrupted data (snd d))
           \<and> (quiescent w \<longrightarrow> length (deliveries w) = 1)"
    using channel_phase_dropped[OF p] channel_phase_delivered[OF p] by simp
qed

theorem C6_deliver_once_or_drop_witness:
  "sock clean_channel = VirtualSocket \<lparr>dropProbability = 0, delayProbability = 0,
                                        errorProbability = 0, maxDelayMs = 1000\<rparr>
   \<and> run clean_channel [Run, Run, Run] (socket_call (str ''Hi'') Server)
       = Some \<lparr>stack = [], timers = [], ackReceived = [], draws = 3, registered = [],
               log = [Transmitted (str ''Hi''), Delivered Server (JStr (str ''Hi''))]\<rparr>
   \<and> \<not> Math_random clean_channel 0 < 0
   \<and> quiescent \<lparr>stack = [], timers = [], ackReceived = [], draws = 3, registered = [],
               log = [Transmitted (str ''Hi''), Delivered Server (JStr (str ''Hi''))]\<rparr>
   \<and> length (deliveries \<lparr>stack = [], timers = [], ackReceived = [], draws = 3,
               registered = [],
               log = [Transmitted (str ''Hi''), Delivered Server (JStr (str ''Hi''))]\<rparr>) = 1"
proof -
  let ?cfg = "\<lparr>dropProbability = 0, delayProbability = 0, errorProbability = 0,
               maxDelayMs = 1000\<rparr>"
  let ?w = "\<lparr>stack = [], timers = [], ackReceived = [], draws = 3, registered = [],
             log = [Transmitted (str ''Hi''), Delivered Server (JStr (str ''Hi''))]\<rparr>"
  have s: "sock clean_channel = VirtualSocket ?cfg"
    by (simp add: clean_channel_def)
  have r: "run clean_channel [Run, Run, Run] (socket_call (str ''Hi'') Server) = Some ?w"
    by (simp add: socket_call_def clean_channel_def VirtualSocket_send_def
        maybeCorruptData_def constant_draws_def)
  have d: "\<not> Math_random clean_channel 0 < 0"
    by (simp add: clean_channel_def constant_draws_def)
  have q: "quiescent ?w"
    by (simp add: quiescent_def)
  from C6_deliver_once_or_drop[OF s, of "str ''Hi''"]
  have "run clean_channel [Run, Run, Run] (socket_call (str ''Hi'') Server) = Some ?w \<longrightarrow>
          (if Math_random clean_channel 0 < dropProbability ?cfg
           then deliveries ?w = [] \<and> timers ?w = []
           else length (deliveries ?w) \<le> 1
              \<and> (\<forall>d\<in>set (deliveries ?w). fst d = Server \<and> possibly_corrupted (str ''Hi'') (snd d))
              \<and> (quiescent ?w \<longrightarrow> length (deliveries ?w) = 1))"
    by blast
  then have "length (deliveries ?w) = 1"
    using r d q by simp
  then show ?thesis using s r d q by blast
qed

end
